theory Spec2Isabelle
  imports Complex_Main "HOL-Library.Sublist" "HOL-Library.Multiset"
    "HOL-Library.Char_ord" "HOL-Library.List_Lexorder"
begin

section \<open>Python values\<close>

text \<open>
  The records handled by \<^verbatim>\<open>pdf_generator.py\<close> are Python dictionaries from field
  names to scalar values, as \<^verbatim>\<open>json.load\<close> and \<^verbatim>\<open>DataFrame.to_dict("records")\<close>
  produce them: \<^verbatim>\<open>None\<close>, booleans, unbounded integers, floats and strings.
  A finite float is represented by its exact rational value (the program compares and
  truncates floats but never does arithmetic on them), so \<open>0.0\<close> and \<open>-0.0\<close> coincide.
  Strings are byte lists (UTF-8).
\<close>

datatype pyfloat = Fin rat | PInf | NInf | NaN

datatype pyval = VNone | VBool bool | VInt int | VFloat pyfloat | VStr string

type_synonym row = "string \<rightharpoonup> pyval"

text \<open>
  Exceptions. \<open>UnsupportedFormat\<close> is the \<^verbatim>\<open>ValueError\<close> raised by the last branch of
  \<^verbatim>\<open>load_data\<close> (it carries the offending suffix); \<open>DataLoadError\<close> is whatever
  \<^verbatim>\<open>open\<close>, \<^verbatim>\<open>json.load\<close> or \<^verbatim>\<open>pd.read_csv\<close> raise on a file; \<open>IntCastingNaNError\<close> is
  raised by \<^verbatim>\<open>astype(int)\<close> on a non-finite value; \<open>RenderError\<close> is whatever the
  template engine or the PDF writer raise.
\<close>

datatype load_failure = IOFailure | ParseFailure

datatype pyexc =
    ValueError
  | TypeError
  | OverflowError
  | KeyError string
  | EOFError
  | ExitCommand
  | UnsupportedFormat string
  | DataLoadError load_failure
  | IntCastingNaNError
  | RenderError

subsection \<open>Dictionary access\<close>

text \<open>\<^verbatim>\<open>d[k]\<close>, \<^verbatim>\<open>d.get(k)\<close> and \<^verbatim>\<open>d.get(k, default)\<close>.\<close>

definition subscript :: "row \<Rightarrow> string \<Rightarrow> pyexc + pyval" where
  "subscript d k = (case d k of None \<Rightarrow> Inl (KeyError k) | Some v \<Rightarrow> Inr v)"

definition get :: "row \<Rightarrow> string \<Rightarrow> pyval" where
  "get d k = (case d k of None \<Rightarrow> VNone | Some v \<Rightarrow> v)"

definition get_default :: "row \<Rightarrow> string \<Rightarrow> pyval \<Rightarrow> pyval" where
  "get_default d k dflt = (case d k of None \<Rightarrow> dflt | Some v \<Rightarrow> v)"

subsection \<open>Equality, order and truth value\<close>

text \<open>
  Python's \<^verbatim>\<open>==\<close> compares \<^verbatim>\<open>bool\<close>, \<^verbatim>\<open>int\<close> and \<^verbatim>\<open>float\<close> by numerical value
  (\<^verbatim>\<open>True == 1\<close>, \<^verbatim>\<open>3 == 3.0\<close>), exactly; \<^verbatim>\<open>nan\<close> equals nothing, itself included;
  a string equals only an equal string, \<^verbatim>\<open>None\<close> only \<^verbatim>\<open>None\<close>.
\<close>

fun as_number :: "pyval \<Rightarrow> pyfloat option" where
  "as_number (VBool b) = Some (Fin (if b then 1 else 0))"
| "as_number (VInt n) = Some (Fin (of_int n))"
| "as_number (VFloat f) = Some f"
| "as_number VNone = None"
| "as_number (VStr s) = None"

fun float_eq :: "pyfloat \<Rightarrow> pyfloat \<Rightarrow> bool" where
  "float_eq (Fin a) (Fin b) = (a = b)"
| "float_eq PInf PInf = True"
| "float_eq NInf NInf = True"
| "float_eq _ _ = False"

fun float_lt :: "pyfloat \<Rightarrow> pyfloat \<Rightarrow> bool" where
  "float_lt (Fin a) (Fin b) = (a < b)"
| "float_lt NInf (Fin b) = True"
| "float_lt NInf PInf = True"
| "float_lt (Fin a) PInf = True"
| "float_lt _ _ = False"

definition py_eq :: "pyval \<Rightarrow> pyval \<Rightarrow> bool" where
  "py_eq a b =
     (case (as_number a, as_number b) of
        (Some x, Some y) \<Rightarrow> float_eq x y
      | (None, None) \<Rightarrow> a = b
      | _ \<Rightarrow> False)"

text \<open>
  \<^verbatim>\<open>a < b\<close>: numbers by value, strings lexicographically by code point (which is the
  byte order of UTF-8); anything else raises \<^verbatim>\<open>TypeError\<close>.
\<close>

definition py_lt :: "pyval \<Rightarrow> pyval \<Rightarrow> pyexc + bool" where
  "py_lt a b =
     (case (as_number a, as_number b) of
        (Some x, Some y) \<Rightarrow> Inr (float_lt x y)
      | _ \<Rightarrow> (case (a, b) of (VStr s, VStr t) \<Rightarrow> Inr (s < t) | _ \<Rightarrow> Inl TypeError))"

text \<open>The truth value used by \<^verbatim>\<open>if x\<close>.\<close>

fun truthy :: "pyval \<Rightarrow> bool" where
  "truthy VNone = False"
| "truthy (VBool b) = b"
| "truthy (VInt n) = (n \<noteq> 0)"
| "truthy (VFloat f) = (f \<noteq> Fin 0)"
| "truthy (VStr s) = (s \<noteq> [])"

subsection \<open>The builtin \<^verbatim>\<open>int\<close>\<close>

text \<open>
  \<^verbatim>\<open>int(s)\<close> on a string strips surrounding whitespace, reads an optional sign and then
  decimal digits, where single underscores may separate digits; anything else raises
  \<^verbatim>\<open>ValueError\<close>. On an ASCII string the whitespace is tab, line feed, vertical
  tab, form feed, carriage return and space. A string with non-ASCII characters is
  refused here, though Python also reads the decimal digits and the whitespace of
  Unicode.
\<close>

definition is_space :: "char \<Rightarrow> bool" where
  "is_space c = (c \<in> set [CHR 0x09, CHR 0x0A, CHR 0x0B, CHR 0x0C, CHR 0x0D, CHR '' ''])"

definition strip :: "string \<Rightarrow> string" where
  "strip s = rev (dropWhile is_space (rev (dropWhile is_space s)))"

definition digit_val :: "char \<Rightarrow> nat option" where
  "digit_val c = map_of (zip ''0123456789'' [0, 1, 2, 3, 4, 5, 6, 7, 8, 9]) c"

text \<open>
  \<open>read_digits acc prev_digit s\<close>: the digits read so far have value \<open>acc\<close>;
  \<open>prev_digit\<close> says whether the previous character was a digit (an underscore is
  only allowed between two digits).
\<close>

fun read_digits :: "nat \<Rightarrow> bool \<Rightarrow> string \<Rightarrow> nat option" where
  "read_digits acc prev_digit [] = (if prev_digit then Some acc else None)"
| "read_digits acc prev_digit (c # cs) =
     (case digit_val c of
        Some d \<Rightarrow> read_digits (10 * acc + d) True cs
      | None \<Rightarrow> (if c = CHR ''_'' \<and> prev_digit then read_digits acc False cs else None))"

definition int_of_string :: "string \<Rightarrow> pyexc + int" where
  "int_of_string s =
     (case strip s of
        [] \<Rightarrow> Inl ValueError
      | c # cs \<Rightarrow>
          (if c = CHR ''-'' then
             (case read_digits 0 False cs of None \<Rightarrow> Inl ValueError | Some n \<Rightarrow> Inr (- int n))
           else if c = CHR ''+'' then
             (case read_digits 0 False cs of None \<Rightarrow> Inl ValueError | Some n \<Rightarrow> Inr (int n))
           else
             (case read_digits 0 False (c # cs) of None \<Rightarrow> Inl ValueError | Some n \<Rightarrow> Inr (int n))))"

text \<open>Truncation towards zero, as \<^verbatim>\<open>int(x)\<close> and \<^verbatim>\<open>astype(int)\<close> do on a finite float.\<close>

definition trunc :: "rat \<Rightarrow> int" where
  "trunc r = (if 0 \<le> r then \<lfloor>r\<rfloor> else \<lceil>r\<rceil>)"

fun py_int :: "pyval \<Rightarrow> pyexc + int" where
  "py_int (VInt n) = Inr n"
| "py_int (VBool b) = Inr (if b then 1 else 0)"
| "py_int (VFloat (Fin r)) = Inr (trunc r)"
| "py_int (VFloat NaN) = Inl ValueError"
| "py_int (VFloat PInf) = Inl OverflowError"
| "py_int (VFloat NInf) = Inl OverflowError"
| "py_int (VStr s) = int_of_string s"
| "py_int VNone = Inl TypeError"

subsection \<open>Formatting in an f-string\<close>

fun str_of_nat :: "nat \<Rightarrow> string" where
  "str_of_nat n =
     (if n < 10 then [''0123456789'' ! n]
      else str_of_nat (n div 10) @ [''0123456789'' ! (n mod 10)])"

declare str_of_nat.simps [simp del]

definition str_of_int :: "int \<Rightarrow> string" where
  "str_of_int i = (if i < 0 then CHR ''-'' # str_of_nat (nat (- i)) else str_of_nat (nat i))"

section \<open>The environment of one run\<close>

text \<open>
  What the program reads from outside is collected in one record:
  \<^item> \<open>data_dir\<close>, \<open>templates_dir\<close>: the names of the entries of \<^verbatim>\<open>DATA_DIR\<close> and
    \<^verbatim>\<open>TEMPLATES_DIR\<close>;
  \<^item> \<open>read_file\<close>: for each data file, what the parser that \<^verbatim>\<open>load_data\<close> picks for
    it returns: the list of objects of \<^verbatim>\<open>json.load\<close> for a JSON array of flat
    objects, the rows of the frame of \<^verbatim>\<open>pd.read_csv\<close> (all rows with the same keys,
    the columns), or the failure of the read;
  \<^item> \<open>parse_number\<close>: the number \<^verbatim>\<open>pd.to_numeric\<close> reads from a string cell, if any;
  \<^item> \<open>repr_float\<close>: the text Python prints for a float;
  \<^item> \<open>render_pdf\<close>: the document that jinja2 and WeasyPrint make of a template and
    a context, or their failure.
\<close>

datatype doc_context =
    InvoiceCtx row "row list"
  | ProductsCtx "row list"
  | OrderCtx pyval "row list" int

record world =
  data_dir :: "string list"
  templates_dir :: "string list"
  read_file :: "string \<Rightarrow> load_failure + row list"
  parse_number :: "string \<Rightarrow> pyfloat option"
  repr_float :: "pyfloat \<Rightarrow> string"
  render_pdf :: "string \<Rightarrow> doc_context \<Rightarrow> pyexc + string"

text \<open>\<^verbatim>\<open>f"{v}"\<close> for a scalar \<open>v\<close>.\<close>

fun py_str :: "world \<Rightarrow> pyval \<Rightarrow> string" where
  "py_str w VNone = ''None''"
| "py_str w (VBool b) = (if b then ''True'' else ''False'')"
| "py_str w (VInt n) = str_of_int n"
| "py_str w (VFloat f) = repr_float w f"
| "py_str w (VStr s) = s"

section \<open>File names\<close>

text \<open>
  \<^verbatim>\<open>str.lower\<close> on ASCII letters; other bytes are left alone (no non-ASCII letter
  lower-cases to a letter of the names compared below).
\<close>

definition lower_char :: "char \<Rightarrow> char" where
  "lower_char c =
     (case map_of (zip ''ABCDEFGHIJKLMNOPQRSTUVWXYZ'' ''abcdefghijklmnopqrstuvwxyz'') c of
        None \<Rightarrow> c | Some l \<Rightarrow> l)"

definition lower :: "string \<Rightarrow> string" where
  "lower s = map lower_char s"

text \<open>
  \<^verbatim>\<open>Path.suffix\<close> and \<^verbatim>\<open>Path.stem\<close> of a file name: the name is cut at its last
  dot, unless that dot is the first or the last character.
\<close>

definition rfind_dot :: "string \<Rightarrow> nat option" where
  "rfind_dot name =
     (if CHR ''.'' \<in> set name
      then Some (length name - 1 - length (takeWhile (\<lambda>c. c \<noteq> CHR ''.'') (rev name)))
      else None)"

definition suffix_of :: "string \<Rightarrow> string" where
  "suffix_of name =
     (case rfind_dot name of
        None \<Rightarrow> []
      | Some i \<Rightarrow> (if 0 < i \<and> i < length name - 1 then drop i name else []))"

definition stem :: "string \<Rightarrow> string" where
  "stem name =
     (case rfind_dot name of
        None \<Rightarrow> name
      | Some i \<Rightarrow> (if 0 < i \<and> i < length name - 1 then take i name else name))"

text \<open>\<^verbatim>\<open>selected_data_file.stem.split("_")[0].lower()\<close>\<close>

definition entity_type_of :: "string \<Rightarrow> string" where
  "entity_type_of name = lower (takeWhile (\<lambda>c. c \<noteq> CHR ''_'') (stem name))"

text \<open>
  The glob patterns of the program have the shape \<open>pre*suf\<close> (\<^verbatim>\<open>*\<close>, \<^verbatim>\<open>*.html\<close>,
  \<^verbatim>\<open>order_*.csv\<close>, \<^verbatim>\<open>order_*.json\<close>); matching is case-sensitive.
  \<^verbatim>\<open>list_files\<close> sorts the matches by name.
\<close>

definition glob_match :: "string \<Rightarrow> string \<Rightarrow> string \<Rightarrow> bool" where
  "glob_match pre suf name =
     (length pre + length suf \<le> length name
      \<and> take (length pre) name = pre
      \<and> drop (length name - length suf) name = suf)"

definition list_files :: "string list \<Rightarrow> string \<Rightarrow> string \<Rightarrow> string list" where
  "list_files directory pre suf = sort (filter (glob_match pre suf) directory)"

section \<open>RecordLoader: \<^verbatim>\<open>load_data\<close>\<close>

text \<open>
  The three steps applied to a cell of a coerced column:
  \<^verbatim>\<open>pd.to_numeric(..., errors="coerce")\<close> (what is not a number becomes \<^verbatim>\<open>nan\<close>),
  \<^verbatim>\<open>.fillna(0)\<close> and \<^verbatim>\<open>.astype(int)\<close> (truncation; a non-finite value raises).
  Cells are treated one by one: the rounding of large integers that share a column
  with floats, and the 64-bit range of the column, are left out.
\<close>

fun to_numeric :: "world \<Rightarrow> pyval \<Rightarrow> pyfloat" where
  "to_numeric w (VInt n) = Fin (of_int n)"
| "to_numeric w (VBool b) = Fin (if b then 1 else 0)"
| "to_numeric w (VFloat f) = f"
| "to_numeric w (VStr s) = (case parse_number w s of None \<Rightarrow> NaN | Some f \<Rightarrow> f)"
| "to_numeric w VNone = NaN"

fun fillna0 :: "pyfloat \<Rightarrow> pyfloat" where
  "fillna0 NaN = Fin 0"
| "fillna0 f = f"

fun astype_int :: "pyfloat \<Rightarrow> pyexc + int" where
  "astype_int (Fin r) = Inr (trunc r)"
| "astype_int f = Inl IntCastingNaNError"

definition coerce_cell :: "world \<Rightarrow> string \<Rightarrow> row \<Rightarrow> pyexc + row" where
  "coerce_cell w k r =
     (case r k of
        None \<Rightarrow> Inr r
      | Some v \<Rightarrow>
          (case astype_int (fillna0 (to_numeric w v)) of
             Inl e \<Rightarrow> Inl e
           | Inr n \<Rightarrow> Inr (r(k \<mapsto> VInt n))))"

text \<open>A column is coerced if the frame has it, that is if the rows have the key.\<close>

fun coerce_column :: "world \<Rightarrow> string \<Rightarrow> row list \<Rightarrow> pyexc + row list" where
  "coerce_column w k [] = Inr []"
| "coerce_column w k (r # rs) =
     (case coerce_cell w k r of
        Inl e \<Rightarrow> Inl e
      | Inr r' \<Rightarrow>
          (case coerce_column w k rs of
             Inl e \<Rightarrow> Inl e
           | Inr rs' \<Rightarrow> Inr (r' # rs')))"

definition load_data :: "world \<Rightarrow> string \<Rightarrow> pyexc + row list" where
  "load_data w file_path =
     (if lower (suffix_of file_path) = ''.json'' then
        (case read_file w file_path of
           Inl f \<Rightarrow> Inl (DataLoadError f)
         | Inr records \<Rightarrow> Inr records)
      else if lower (suffix_of file_path) = ''.csv'' then
        (case read_file w file_path of
           Inl f \<Rightarrow> Inl (DataLoadError f)
         | Inr df \<Rightarrow>
             (case coerce_column w ''quantity'' df of
                Inl e \<Rightarrow> Inl e
              | Inr df1 \<Rightarrow>
                  (case coerce_column w ''price'' df1 of
                     Inl e \<Rightarrow> Inl e
                   | Inr df2 \<Rightarrow> coerce_column w ''invoice_number'' df2)))
      else Inl (UnsupportedFormat (suffix_of file_path)))"

section \<open>The menus\<close>

text \<open>
  A line typed at a prompt, after \<^verbatim>\<open>strip().lower()\<close>, is one of: an exit word
  (\<open>ExitWord\<close>), the word \<^verbatim>\<open>all\<close> (\<open>AllWord\<close>), integer literals separated by
  commas (\<open>Numbers\<close>, at least one), or anything else (\<open>Other\<close>). The lines still to
  be read are a list; reading past its end raises \<^verbatim>\<open>EOFError\<close>.
\<close>

datatype answer = ExitWord | AllWord | Numbers "int list" | Other

text \<open>
  \<^verbatim>\<open>display_menu\<close> over \<open>n\<close> items asks again until the line is one number between
  \<open>1\<close> and \<open>n\<close>, and returns the index; the result comes with the lines left.
\<close>

fun display_menu :: "nat \<Rightarrow> answer list \<Rightarrow> (pyexc + nat) \<times> answer list" where
  "display_menu n [] = (Inl EOFError, [])"
| "display_menu n (ExitWord # rest) = (Inl ExitCommand, rest)"
| "display_menu n (Numbers [k] # rest) =
     (if 0 \<le> k - 1 \<and> k - 1 < int n then (Inr (nat (k - 1)), rest)
      else display_menu n rest)"
| "display_menu n (_ # rest) = display_menu n rest"

text \<open>
  \<^verbatim>\<open>display_multi_select_menu\<close>: \<^verbatim>\<open>all\<close> selects every index; a list of numbers is
  accepted when each lies between \<open>1\<close> and \<open>n\<close>.
\<close>

fun display_multi_select_menu ::
  "nat \<Rightarrow> answer list \<Rightarrow> (pyexc + nat list) \<times> answer list" where
  "display_multi_select_menu n [] = (Inl EOFError, [])"
| "display_multi_select_menu n (ExitWord # rest) = (Inl ExitCommand, rest)"
| "display_multi_select_menu n (AllWord # rest) = (Inr [0..<n], rest)"
| "display_multi_select_menu n (Numbers [] # rest) = display_multi_select_menu n rest"
| "display_multi_select_menu n (Numbers ks # rest) =
     (if \<forall>k \<in> set ks. 0 \<le> k - 1 \<and> k - 1 < int n
      then (Inr (map (\<lambda>k. nat (k - 1)) ks), rest)
      else display_multi_select_menu n rest)"
| "display_multi_select_menu n (Other # rest) = display_multi_select_menu n rest"

section \<open>Aggregator\<close>

text \<open>
  \<^verbatim>\<open>[o for o in all_orders if o.get("invoice_number") == target]\<close>, written as the
  loop it is.
\<close>

fun orders_for :: "row list \<Rightarrow> pyval \<Rightarrow> row list" where
  "orders_for [] target = []"
| "orders_for (ol # all_orders) target =
     (if py_eq (get ol ''invoice_number'') target
      then ol # orders_for all_orders target
      else orders_for all_orders target)"

text \<open>
  \<^verbatim>\<open>sum(int(o.get("quantity", 0)) * int(o.get("price", 0)) for o in orders)\<close>:
  the first conversion that fails raises.
\<close>

definition line_amount :: "row \<Rightarrow> pyexc + int" where
  "line_amount ol =
     (case py_int (get_default ol ''quantity'' (VInt 0)) of
        Inl e \<Rightarrow> Inl e
      | Inr q \<Rightarrow>
          (case py_int (get_default ol ''price'' (VInt 0)) of
             Inl e \<Rightarrow> Inl e
           | Inr p \<Rightarrow> Inr (q * p)))"

fun sum_from :: "int \<Rightarrow> row list \<Rightarrow> pyexc + int" where
  "sum_from acc [] = Inr acc"
| "sum_from acc (ol # orders) =
     (case line_amount ol of
        Inl e \<Rightarrow> Inl e
      | Inr a \<Rightarrow> sum_from (acc + a) orders)"

definition total_sum :: "row list \<Rightarrow> pyexc + int" where
  "total_sum orders = sum_from 0 orders"

text \<open>
  \<^verbatim>\<open>sorted(set([o.get("invoice_number") for o in all_orders if o.get("invoice_number")]))\<close>.
  The set keeps one of several equal values; the sort compares with \<^verbatim>\<open><\<close> and
  raises on a string beside a number. The sort is an insertion sort: it gives the
  order of Python's \<^verbatim>\<open>sorted\<close> on values that \<^verbatim>\<open><\<close> orders totally, so not on a list
  with \<^verbatim>\<open>nan\<close> in it.
\<close>

fun py_set :: "pyval list \<Rightarrow> pyval list" where
  "py_set [] = []"
| "py_set (x # xs) = x # filter (\<lambda>y. \<not> py_eq x y) (py_set xs)"

fun py_insert :: "pyval \<Rightarrow> pyval list \<Rightarrow> pyexc + pyval list" where
  "py_insert x [] = Inr [x]"
| "py_insert x (y # ys) =
     (case py_lt x y of
        Inl e \<Rightarrow> Inl e
      | Inr True \<Rightarrow> Inr (x # y # ys)
      | Inr False \<Rightarrow> (case py_insert x ys of Inl e \<Rightarrow> Inl e | Inr zs \<Rightarrow> Inr (y # zs)))"

fun py_sorted :: "pyval list \<Rightarrow> pyexc + pyval list" where
  "py_sorted [] = Inr []"
| "py_sorted (x # xs) =
     (case py_sorted xs of Inl e \<Rightarrow> Inl e | Inr ys \<Rightarrow> py_insert x ys)"

definition invoice_numbers_of :: "row list \<Rightarrow> pyexc + pyval list" where
  "invoice_numbers_of all_orders =
     py_sorted (py_set (filter truthy (map (\<lambda>ol. get ol ''invoice_number'') all_orders)))"

section \<open>DocumentWriter: \<^verbatim>\<open>generate_pdf\<close>\<close>

text \<open>
  The output directory is a map from file names to documents. \<^verbatim>\<open>generate_pdf\<close>
  renders and writes the file, replacing an older one of that name; a failure leaves
  the directory as it was. A run of \<^verbatim>\<open>process_document\<close> ends by returning \<^verbatim>\<open>True\<close>
  (\<open>Done\<close>), by printing a message and returning \<^verbatim>\<open>False\<close> (\<open>Failed\<close>, with what the
  message says), or by an exception (\<open>Raised\<close>). \<^verbatim>\<open>open_pdf\<close> only starts a viewer
  and catches its own failures.
\<close>

type_synonym outdir = "string \<rightharpoonup> string"

datatype reason =
    NoDataFiles
  | NoTemplates
  | LoadFailed pyexc
  | NoOrderFiles
  | UnknownEntity string

datatype outcome = Done | Failed reason | Raised pyexc

definition generate_pdf ::
  "world \<Rightarrow> string \<Rightarrow> doc_context \<Rightarrow> string \<Rightarrow> outdir \<Rightarrow> outcome \<times> outdir" where
  "generate_pdf w template_path data output_filename out =
     (case render_pdf w template_path data of
        Inl e \<Rightarrow> (Raised e, out)
      | Inr document \<Rightarrow> (Done, out(output_filename \<mapsto> document)))"

section \<open>\<^verbatim>\<open>process_document\<close>\<close>

text \<open>
  \<^verbatim>\<open>list_files(DATA_DIR, "order_*.csv") + list_files(DATA_DIR, "order_*.json")\<close>
\<close>

definition order_files_of :: "world \<Rightarrow> string list" where
  "order_files_of w =
     list_files (data_dir w) ''order_'' ''.csv'' @ list_files (data_dir w) ''order_'' ''.json''"

text \<open>\<^verbatim>\<open>[item[k] for item in all_data]\<close>: the first missing key raises.\<close>

fun column_of :: "string \<Rightarrow> row list \<Rightarrow> pyexc + pyval list" where
  "column_of k [] = Inr []"
| "column_of k (item # all_data) =
     (case subscript item k of
        Inl e \<Rightarrow> Inl e
      | Inr v \<Rightarrow> (case column_of k all_data of Inl e \<Rightarrow> Inl e | Inr vs \<Rightarrow> Inr (v # vs)))"

text \<open>
  The orders of the invoice branch: the \<^verbatim>\<open>try\<close> around the load and the filter turns
  every failure into the empty list. The filter reads \<^verbatim>\<open>selected_invoice["id"]\<close>
  once for each order.
\<close>

definition related_orders :: "world \<Rightarrow> row \<Rightarrow> row list" where
  "related_orders w selected_invoice =
     (case order_files_of w of
        [] \<Rightarrow> []
      | f # _ \<Rightarrow>
          (case load_data w f of
             Inl e \<Rightarrow> []
           | Inr all_orders \<Rightarrow>
               (if all_orders = [] then []
                else (case subscript selected_invoice ''id'' of
                        Inl e \<Rightarrow> []
                      | Inr v \<Rightarrow> orders_for all_orders v))))"

definition invoice_branch ::
  "world \<Rightarrow> string \<Rightarrow> row list \<Rightarrow> answer list \<Rightarrow> outdir \<Rightarrow> outcome \<times> outdir" where
  "invoice_branch w selected_template all_data answers out =
     (case column_of ''id'' all_data of
        Inl e \<Rightarrow> (Raised e, out)
      | Inr invoice_ids \<Rightarrow>
          (case display_menu (length invoice_ids) answers of
             (Inl e, _) \<Rightarrow> (Raised e, out)
           | (Inr invoice_index, _) \<Rightarrow>
               (let selected_invoice = all_data ! invoice_index;
                    orders = related_orders w selected_invoice
                in case subscript selected_invoice ''id'' of
                     Inl e \<Rightarrow> (Raised e, out)
                   | Inr v \<Rightarrow>
                       generate_pdf w selected_template
                         (InvoiceCtx selected_invoice orders)
                         (''invoice_'' @ py_str w v @ ''.pdf'') out)))"

text \<open>
  The product branch builds the menu lines from \<^verbatim>\<open>item['id']\<close> and
  \<^verbatim>\<open>item['name']\<close> of every item, so each item needs both keys.
\<close>

fun product_list_of :: "row list \<Rightarrow> pyexc + unit list" where
  "product_list_of [] = Inr []"
| "product_list_of (item # all_data) =
     (case subscript item ''id'' of
        Inl e \<Rightarrow> Inl e
      | Inr _ \<Rightarrow>
          (case subscript item ''name'' of
             Inl e \<Rightarrow> Inl e
           | Inr _ \<Rightarrow>
               (case product_list_of all_data of Inl e \<Rightarrow> Inl e | Inr ls \<Rightarrow> Inr (() # ls))))"

definition product_branch ::
  "world \<Rightarrow> string \<Rightarrow> row list \<Rightarrow> answer list \<Rightarrow> outdir \<Rightarrow> outcome \<times> outdir" where
  "product_branch w selected_template all_data answers out =
     (case product_list_of all_data of
        Inl e \<Rightarrow> (Raised e, out)
      | Inr product_list \<Rightarrow>
          (case display_multi_select_menu (length product_list) answers of
             (Inl e, _) \<Rightarrow> (Raised e, out)
           | (Inr selected_indices, _) \<Rightarrow>
               (let selected_products = map (\<lambda>idx. all_data ! idx) selected_indices
                in if length selected_products = 1 then
                     (case subscript (selected_products ! 0) ''id'' of
                        Inl e \<Rightarrow> (Raised e, out)
                      | Inr v \<Rightarrow>
                          generate_pdf w selected_template (ProductsCtx selected_products)
                            (''product_'' @ py_str w v @ ''.pdf'') out)
                   else
                     generate_pdf w selected_template (ProductsCtx selected_products)
                       (''products_'' @ str_of_nat (length selected_products) @ ''.pdf'') out)))"

definition order_branch ::
  "world \<Rightarrow> string \<Rightarrow> answer list \<Rightarrow> outdir \<Rightarrow> outcome \<times> outdir" where
  "order_branch w selected_template answers out =
     (case order_files_of w of
        [] \<Rightarrow> (Failed NoOrderFiles, out)
      | f # _ \<Rightarrow>
          (case load_data w f of
             Inl e \<Rightarrow> (Raised e, out)
           | Inr all_orders \<Rightarrow>
               (case invoice_numbers_of all_orders of
                  Inl e \<Rightarrow> (Raised e, out)
                | Inr invoice_numbers \<Rightarrow>
                    (case display_menu (length invoice_numbers) answers of
                       (Inl e, _) \<Rightarrow> (Raised e, out)
                     | (Inr invoice_index, _) \<Rightarrow>
                         (let selected_invoice_number = invoice_numbers ! invoice_index;
                              orders_for_invoice = orders_for all_orders selected_invoice_number
                          in case total_sum orders_for_invoice of
                               Inl e \<Rightarrow> (Raised e, out)
                             | Inr total_sum_value \<Rightarrow>
                                 generate_pdf w selected_template
                                   (OrderCtx selected_invoice_number orders_for_invoice total_sum_value)
                                   (''order_invoice_'' @ py_str w selected_invoice_number @ ''.pdf'')
                                   out)))))"

text \<open>
  The first half of \<^verbatim>\<open>process_document\<close>: the two file menus and the load of the
  selected file. It ends the run (\<open>Inl\<close>) or hands over the selected data file, the
  selected template, the loaded records and the lines left (\<open>Inr\<close>).
\<close>

definition select_and_load ::
  "world \<Rightarrow> answer list \<Rightarrow> outcome + (string \<times> string \<times> row list \<times> answer list)" where
  "select_and_load w answers =
     (let data_files = list_files (data_dir w) [] [];
          template_files = list_files (templates_dir w) [] ''.html''
      in if data_files = [] then Inl (Failed NoDataFiles)
         else if template_files = [] then Inl (Failed NoTemplates)
         else
           (case display_menu (length data_files) answers of
              (Inl e, _) \<Rightarrow> Inl (Raised e)
            | (Inr data_file_index, answers1) \<Rightarrow>
                (case display_menu (length template_files) answers1 of
                   (Inl e, _) \<Rightarrow> Inl (Raised e)
                 | (Inr template_index, answers2) \<Rightarrow>
                     (let selected_data_file = data_files ! data_file_index;
                          selected_template = template_files ! template_index
                      in case load_data w selected_data_file of
                           Inl e \<Rightarrow> Inl (Failed (LoadFailed e))
                         | Inr all_data \<Rightarrow>
                             Inr (selected_data_file, selected_template, all_data, answers2)))))"

text \<open>The second half: the entity type of the file name picks the branch.\<close>

definition dispatch ::
  "world \<Rightarrow> string \<Rightarrow> string \<Rightarrow> row list \<Rightarrow> answer list \<Rightarrow> outdir \<Rightarrow> outcome \<times> outdir" where
  "dispatch w selected_data_file selected_template all_data answers out =
     (let entity_type = entity_type_of selected_data_file
      in if entity_type = ''invoice'' then
           invoice_branch w selected_template all_data answers out
         else if entity_type = ''product'' then
           product_branch w selected_template all_data answers out
         else if entity_type = ''order'' then
           order_branch w selected_template answers out
         else (Failed (UnknownEntity entity_type), out))"

definition process_document :: "world \<Rightarrow> answer list \<Rightarrow> outdir \<Rightarrow> outcome \<times> outdir" where
  "process_document w answers out =
     (case select_and_load w answers of
        Inl result \<Rightarrow> (result, out)
      | Inr (selected_data_file, selected_template, all_data, answers2) \<Rightarrow>
          dispatch w selected_data_file selected_template all_data answers2 out)"

section \<open>Notions used to state the properties\<close>

text \<open>
  The type of a value, and the match of an order line against an invoice identifier.
\<close>

datatype pytype = TNone | TBool | TInt | TFloat | TStr

fun type_of :: "pyval \<Rightarrow> pytype" where
  "type_of VNone = TNone"
| "type_of (VBool b) = TBool"
| "type_of (VInt n) = TInt"
| "type_of (VFloat f) = TFloat"
| "type_of (VStr s) = TStr"

definition matches :: "pyval \<Rightarrow> row \<Rightarrow> bool" where
  "matches target ol = py_eq (get ol ''invoice_number'') target"

text \<open>
  \<open>converts v n\<close>: the value \<open>v\<close> stands for the integer \<open>n\<close>. An integer stands for
  itself, \<^verbatim>\<open>False\<close> and \<^verbatim>\<open>True\<close> for 0 and 1, a finite float for the integer next to
  it towards zero (of the sign of the float, and less than one away from it), a string
  for the integer whose decimal literal it is.
\<close>

definition converts :: "pyval \<Rightarrow> int \<Rightarrow> bool" where
  "converts v n =
     (v = VInt n
      \<or> (v = VBool False \<and> n = 0)
      \<or> (v = VBool True \<and> n = 1)
      \<or> (\<exists>r. v = VFloat (Fin r) \<and> 0 \<le> of_int n * r
             \<and> \<bar>of_int n\<bar> \<le> \<bar>r\<bar> \<and> \<bar>r\<bar> < \<bar>of_int n\<bar> + 1)
      \<or> (\<exists>s. v = VStr s \<and> int_of_string s = Inr n))"

section \<open>Sample data\<close>

text \<open>The two order lines of invoice 3, and a line of invoice 7.\<close>

definition order_X :: row where
  "order_X = [''id'' \<mapsto> VInt 1, ''product'' \<mapsto> VStr ''X'', ''invoice_number'' \<mapsto> VInt 3,
              ''quantity'' \<mapsto> VInt 2, ''price'' \<mapsto> VInt 7000]"

definition order_Y :: row where
  "order_Y = [''id'' \<mapsto> VInt 2, ''product'' \<mapsto> VStr ''Y'', ''invoice_number'' \<mapsto> VInt 3,
              ''quantity'' \<mapsto> VInt 1, ''price'' \<mapsto> VInt 1500]"

definition order_Z :: row where
  "order_Z = [''id'' \<mapsto> VInt 3, ''product'' \<mapsto> VStr ''Z'', ''invoice_number'' \<mapsto> VInt 7,
              ''quantity'' \<mapsto> VInt 5, ''price'' \<mapsto> VInt 10]"

text \<open>
  A world made of a data directory, a template directory and the contents of the data
  files, in which \<^verbatim>\<open>pd.to_numeric\<close> reads no string cell as a number and every
  document renders.
\<close>

definition plain_world ::
  "string list \<Rightarrow> string list \<Rightarrow> (string \<Rightarrow> load_failure + row list) \<Rightarrow> world" where
  "plain_world names templates contents =
     \<lparr>data_dir = names, templates_dir = templates, read_file = contents,
      parse_number = (\<lambda>s. None), repr_float = (\<lambda>f. ''float''),
      render_pdf = (\<lambda>t c. Inr ''%PDF'')\<rparr>"

text \<open>
  Lines of invoice 3 whose quantity is the string \<open>"5"\<close>, the float \<open>2.75\<close>, or
  missing.
\<close>

definition string_quantity_order :: row where
  "string_quantity_order = [''id'' \<mapsto> VInt 4, ''invoice_number'' \<mapsto> VInt 3,
                            ''quantity'' \<mapsto> VStr ''5'', ''price'' \<mapsto> VInt 7]"

definition fractional_order :: row where
  "fractional_order = [''id'' \<mapsto> VInt 5, ''invoice_number'' \<mapsto> VInt 3,
                       ''quantity'' \<mapsto> VFloat (Fin (11 / 4)), ''price'' \<mapsto> VInt 10]"

definition no_quantity_order :: row where
  "no_quantity_order = [''id'' \<mapsto> VInt 6, ''invoice_number'' \<mapsto> VInt 3, ''price'' \<mapsto> VInt 9]"

text \<open>The integers these three lines stand for, by the id of the line.\<close>

definition sample_quantity :: "row \<Rightarrow> int" where
  "sample_quantity ol = (if ol ''id'' = Some (VInt 4) then 5 else if ol ''id'' = Some (VInt 5) then 2 else 0)"

definition sample_price :: "row \<Rightarrow> int" where
  "sample_price ol = (if ol ''id'' = Some (VInt 4) then 7 else if ol ''id'' = Some (VInt 5) then 10 else 9)"

text \<open>
  An order line whose invoice number is the float \<open>3.0\<close>, and one whose invoice number
  is the string \<open>"3"\<close>.
\<close>

definition float_order :: row where
  "float_order = [''id'' \<mapsto> VInt 1, ''invoice_number'' \<mapsto> VFloat (Fin 3),
                  ''quantity'' \<mapsto> VInt 1, ''price'' \<mapsto> VInt 10]"

definition string_order :: row where
  "string_order = [''id'' \<mapsto> VInt 1, ''invoice_number'' \<mapsto> VStr ''3'',
                   ''quantity'' \<mapsto> VInt 1, ''price'' \<mapsto> VInt 10]"

text \<open>
  An order line with a negative quantity and one whose quantity is not a number; a
  directory that holds one data file with given records, and the answers \<open>1\<close>,
  \<open>1\<close>, \<open>1\<close> to the three menus.
\<close>

definition negative_order :: row where
  "negative_order = [''id'' \<mapsto> VInt 1, ''product_name'' \<mapsto> VStr ''X'', ''invoice_number'' \<mapsto> VInt 3,
                     ''quantity'' \<mapsto> VInt (- 5), ''price'' \<mapsto> VInt 100]"

definition malformed_order :: row where
  "malformed_order = [''id'' \<mapsto> VInt 1, ''product_name'' \<mapsto> VStr ''X'', ''invoice_number'' \<mapsto> VInt 3,
                      ''quantity'' \<mapsto> VStr ''abc'', ''price'' \<mapsto> VInt 100]"

definition one_file_dir :: "string \<Rightarrow> row list \<Rightarrow> world" where
  "one_file_dir name records = plain_world [name] [''order_template.html''] (\<lambda>f. Inr records)"

definition three_ones :: "answer list" where
  "three_ones = [Numbers [1], Numbers [1], Numbers [1]]"

text \<open>
  An invoice with no order lines on file, and a directory whose order file cannot be
  read.
\<close>

definition invoice_4 :: row where
  "invoice_4 = [''id'' \<mapsto> VInt 4, ''total'' \<mapsto> VInt 6000]"

definition unreadable_orders_dir :: world where
  "unreadable_orders_dir =
     plain_world [''order_1.csv'', ''invoice_1.json''] [''invoice_template.html'']
       (\<lambda>f. if f = ''order_1.csv'' then Inl IOFailure else Inr [invoice_4])"

text \<open>
  Five catalog items in one file, and a directory with two JSON order files and one
  CSV order file, where only the CSV file holds the lines of invoice 3.
\<close>

definition product_item :: "int \<Rightarrow> row" where
  "product_item n = [''id'' \<mapsto> VInt n, ''name'' \<mapsto> VStr ''item'', ''price'' \<mapsto> VInt (100 * n)]"

definition five_products :: "row list" where
  "five_products = [product_item 1, product_item 2, product_item 3, product_item 4, product_item 5]"

definition two_formats_dir :: world where
  "two_formats_dir =
     plain_world [''order_2.json'', ''order_1.json'', ''order_9.csv''] [''order_template.html'']
       (\<lambda>f. if f = ''order_9.csv'' then Inr [order_X, order_Y] else Inr [order_Z])"

section \<open>Properties of the aggregator\<close>

lemma orders_for_filter: "orders_for all_orders target = filter (matches target) all_orders"
  by (induction all_orders) (simp_all add: matches_def)

lemma sum_from_acc:
  "\<forall>ol \<in> set orders. line_amount ol = Inr (amount ol) \<Longrightarrow>
   sum_from acc orders = Inr (acc + sum_list (map amount orders))"
  by (induction orders arbitrary: acc) simp_all

lemma sum_list_filter_mset:
  "(\<Sum>x\<leftarrow>filter P xs. f x) = sum_mset (image_mset f (filter_mset P (mset xs)))"
  by (induction xs) simp_all

lemma total_sum_Nil: "total_sum [] = Inr 0"
  by (simp add: total_sum_def)

lemma trunc_unique:
  assumes "0 \<le> of_int n * r" and "\<bar>of_int n\<bar> \<le> \<bar>r\<bar>" and "\<bar>r\<bar> < \<bar>of_int n\<bar> + 1"
  shows "trunc r = n"
proof (cases "0 \<le> r")
  case True
  have "0 \<le> n"
  proof (rule ccontr)
    assume "\<not> 0 \<le> n"
    then have n: "n < 0" by simp
    then have "(of_int n :: rat) < 0" by simp
    with assms(1) True have "r = 0"
      by (simp add: zero_le_mult_iff)
    with assms(2) n show False by simp
  qed
  with assms(2,3) True have "of_int n \<le> r" "r < of_int n + 1"
    by simp_all
  then have "\<lfloor>r\<rfloor> = n" by (rule floor_unique)
  with True show ?thesis by (simp add: trunc_def)
next
  case False
  then have r: "r < 0" by simp
  have "(of_int n :: rat) \<le> 0"
    using assms(1) r by (simp add: zero_le_mult_iff)
  with assms(2,3) r have "of_int n - 1 < r" "r \<le> of_int n"
    by simp_all
  then have "\<lceil>r\<rceil> = n" by (rule ceiling_unique)
  with False show ?thesis by (simp add: trunc_def)
qed

lemma converts_py_int: "converts v n \<Longrightarrow> py_int v = Inr n"
  unfolding converts_def by (auto simp: trunc_unique)

lemma trunc_converts:
  "0 \<le> of_int (trunc r) * r \<and> \<bar>of_int (trunc r)\<bar> \<le> \<bar>r\<bar> \<and> \<bar>r\<bar> < \<bar>of_int (trunc r)\<bar> + 1"
proof (cases "0 \<le> r")
  case True
  then have n: "0 \<le> \<lfloor>r\<rfloor>" by simp
  then have "(0::rat) \<le> of_int \<lfloor>r\<rfloor>" by simp
  moreover have "of_int \<lfloor>r\<rfloor> \<le> r" "r < of_int \<lfloor>r\<rfloor> + 1"
    by linarith+
  ultimately show ?thesis
    using True by (simp add: trunc_def)
next
  case False
  then have r: "r < 0" by simp
  then have "\<lceil>r\<rceil> \<le> 0" by (simp add: ceiling_le_zero)
  then have n: "(of_int \<lceil>r\<rceil> :: rat) \<le> 0" by simp
  have "r \<le> of_int \<lceil>r\<rceil>" "of_int \<lceil>r\<rceil> - 1 < r"
    by linarith+
  with n r show ?thesis
    using False by (simp add: trunc_def zero_le_mult_iff)
qed

lemma py_int_converts: "py_int v = Inr n \<Longrightarrow> converts v n"
proof (cases v)
  case (VFloat f)
  assume a: "py_int v = Inr n"
  with VFloat obtain r where f: "f = Fin r" and n: "n = trunc r"
    by (cases f) auto
  show ?thesis
    unfolding converts_def VFloat f n
    using trunc_converts [of r] by blast
next
  case (VBool b)
  assume "py_int v = Inr n"
  with VBool show ?thesis
    by (cases b) (auto simp: converts_def)
qed (auto simp: converts_def)

lemma line_amount_converts:
  assumes "converts (get_default ol ''quantity'' (VInt 0)) q"
    and "converts (get_default ol ''price'' (VInt 0)) p"
  shows "line_amount ol = Inr (q * p)"
  by (simp add: line_amount_def converts_py_int [OF assms(1)] converts_py_int [OF assms(2)])

lemma total_sum_converts:
  assumes "\<forall>ol \<in> set orders. converts (get_default ol ''quantity'' (VInt 0)) (q ol)
             \<and> converts (get_default ol ''price'' (VInt 0)) (p ol)"
  shows "total_sum orders = Inr (\<Sum>ol\<leftarrow>orders. q ol * p ol)"
proof -
  have "\<forall>ol \<in> set orders. line_amount ol = Inr (q ol * p ol)"
    using assms by (simp add: line_amount_converts)
  from sum_from_acc [OF this, of 0] show ?thesis
    by (simp add: total_sum_def)
qed

lemma trunc_sample: "trunc (11 / 4) = 2"
  by (rule trunc_unique) simp_all

lemma line_amount_samples:
  "line_amount string_quantity_order = Inr 35"
  "line_amount fractional_order = Inr 20"
  "line_amount no_quantity_order = Inr 0"
  by (simp_all add: line_amount_def get_default_def string_quantity_order_def
      fractional_order_def no_quantity_order_def trunc_sample
      int_of_string_def strip_def is_space_def digit_val_def)

lemma float_eq_iff: "float_eq x y = (x = y \<and> x \<noteq> NaN)"
  by (cases x; cases y) simp_all

lemma py_eq_iff:
  "py_eq v target =
     ((as_number v = None \<and> v = target)
      \<or> (\<exists>x. as_number v = Some x \<and> as_number target = Some x \<and> x \<noteq> NaN))"
proof (cases "as_number v")
  case None
  then show ?thesis
    by (cases "as_number target") (auto simp: py_eq_def)
next
  case (Some x)
  then show ?thesis
    by (cases "as_number target") (auto simp: py_eq_def float_eq_iff)
qed

text \<open>
  Claim C2. Filtering by invoice identifier returns exactly the sub-list of the records
  whose \<^verbatim>\<open>invoice_number\<close> equals the target (equality being Python's \<^verbatim>\<open>==\<close>, and
  a missing field reading as \<^verbatim>\<open>None\<close>), in their original relative order and with
  their multiplicities, and nothing else; an identifier that no record matches gives the
  empty list. The function is total, so no identifier gives an error.
\<close>

theorem filter_by_invoice_exact:
  "orders_for all_orders target = filter (matches target) all_orders
   \<and> subseq (orders_for all_orders target) all_orders
   \<and> (\<forall>ol. count_list (orders_for all_orders target) ol =
             (if matches target ol then count_list all_orders ol else 0))
   \<and> ((\<forall>ol \<in> set all_orders. \<not> matches target ol) \<longrightarrow> orders_for all_orders target = [])"
proof (intro conjI allI impI)
  show "orders_for all_orders target = filter (matches target) all_orders"
    by (rule orders_for_filter)
  show "subseq (orders_for all_orders target) all_orders"
    by (simp add: orders_for_filter)
  show "count_list (orders_for all_orders target) ol =
          (if matches target ol then count_list all_orders ol else 0)" for ol
    by (induction all_orders) (auto simp: matches_def)
  show "orders_for all_orders target = []"
    if "\<forall>ol \<in> set all_orders. \<not> matches target ol"
    using that by (simp add: orders_for_filter)
qed

text \<open>The filter on three order lines: no line of invoice 9, two lines of invoice 3.\<close>

theorem filter_by_invoice_exact_witness:
  "\<not> matches (VInt 9) order_X \<and> \<not> matches (VInt 9) order_Z \<and> \<not> matches (VInt 9) order_Y
   \<and> orders_for [order_X, order_Z, order_Y] (VInt 9) = []
   \<and> orders_for [order_X, order_Z, order_Y] (VInt 3) = [order_X, order_Y]"
proof -
  have n: "\<not> matches (VInt 9) order_X" "\<not> matches (VInt 9) order_Z" "\<not> matches (VInt 9) order_Y"
    by (simp_all add: matches_def order_X_def order_Y_def order_Z_def py_eq_def get_def)
  then have "\<forall>ol \<in> set [order_X, order_Z, order_Y]. \<not> matches (VInt 9) ol"
    by simp
  with filter_by_invoice_exact [of "[order_X, order_Z, order_Y]" "VInt 9"]
  have e: "orders_for [order_X, order_Z, order_Y] (VInt 9) = []"
    by blast
  have m: "filter (matches (VInt 3)) [order_X, order_Z, order_Y] = [order_X, order_Y]"
    by (simp add: matches_def order_X_def order_Y_def order_Z_def py_eq_def get_def)
  from filter_by_invoice_exact [of "[order_X, order_Z, order_Y]" "VInt 3"]
  have "orders_for [order_X, order_Z, order_Y] (VInt 3) = [order_X, order_Y]"
    unfolding m by blast
  with n e show ?thesis by simp
qed

text \<open>
  Claim C1, as amended. In the order branch the total is the sum, over exactly the
  records that match the selected invoice identifier, of the integer the quantity
  stands for times the integer the price stands for, where a missing field counts as 0,
  whenever every such field of a matching record stands for an integer (an integer, a
  boolean, a finite float, which is cut towards zero, or the decimal literal of an
  integer). The arithmetic is on unbounded integers; the total does not depend on the
  order of the records, and filtering and summing again gives the same total. For the
  two sample lines of invoice 3 the total is 15500 and both lines are kept in input
  order; the quantities \<open>"5"\<close>, \<open>2.75\<close> and a missing one, at the prices 7, 10 and
  9, give 35 + 20 + 0. A value stands for an integer exactly when \<^verbatim>\<open>int\<close> returns
  that integer for it.
\<close>

theorem order_total_is_sum_of_converted_amounts:
  "((\<forall>ol \<in> set all_orders. matches sel ol \<longrightarrow>
        converts (get_default ol ''quantity'' (VInt 0)) (q ol)
        \<and> converts (get_default ol ''price'' (VInt 0)) (p ol)) \<longrightarrow>
      total_sum (orders_for all_orders sel) =
        Inr (\<Sum>ol\<leftarrow>filter (matches sel) all_orders. q ol * p ol)
      \<and> (\<forall>reordered. mset reordered = mset all_orders \<longrightarrow>
            total_sum (orders_for reordered sel) = total_sum (orders_for all_orders sel)))
   \<and> total_sum (orders_for (orders_for all_orders sel) sel) = total_sum (orders_for all_orders sel)
   \<and> orders_for [order_X, order_Y] (VInt 3) = [order_X, order_Y]
   \<and> total_sum (orders_for [order_X, order_Y] (VInt 3)) = Inr 15500
   \<and> total_sum (orders_for [string_quantity_order, fractional_order, no_quantity_order] (VInt 3))
       = Inr 55
   \<and> converts v n = (py_int v = Inr n)"
proof (intro conjI impI allI)
  show "converts v n = (py_int v = Inr n)"
    by (rule iffI) (rule converts_py_int, assumption, rule py_int_converts, assumption)
  have total: "total_sum (orders_for xs sel) = Inr (\<Sum>ol\<leftarrow>filter (matches sel) xs. q ol * p ol)"
    if "\<forall>ol \<in> set xs. matches sel ol \<longrightarrow>
          converts (get_default ol ''quantity'' (VInt 0)) (q ol)
          \<and> converts (get_default ol ''price'' (VInt 0)) (p ol)" for xs
    using that by (simp add: orders_for_filter total_sum_converts)
  {
    assume h: "\<forall>ol \<in> set all_orders. matches sel ol \<longrightarrow>
          converts (get_default ol ''quantity'' (VInt 0)) (q ol)
          \<and> converts (get_default ol ''price'' (VInt 0)) (p ol)"
    show "total_sum (orders_for all_orders sel) =
            Inr (\<Sum>ol\<leftarrow>filter (matches sel) all_orders. q ol * p ol)"
      by (rule total [OF h])
    fix reordered :: "row list"
    assume pm: "mset reordered = mset all_orders"
    then have "set reordered = set all_orders"
      by (rule mset_eq_setD)
    with h have h': "\<forall>ol \<in> set reordered. matches sel ol \<longrightarrow>
          converts (get_default ol ''quantity'' (VInt 0)) (q ol)
          \<and> converts (get_default ol ''price'' (VInt 0)) (p ol)"
      by simp
    show "total_sum (orders_for reordered sel) = total_sum (orders_for all_orders sel)"
      by (simp add: total [OF h] total [OF h'] sum_list_filter_mset pm)
  }
  show "total_sum (orders_for (orders_for all_orders sel) sel) = total_sum (orders_for all_orders sel)"
    by (simp add: orders_for_filter)
  show "orders_for [order_X, order_Y] (VInt 3) = [order_X, order_Y]"
    by (simp add: order_X_def order_Y_def py_eq_def get_def)
  show "total_sum (orders_for [order_X, order_Y] (VInt 3)) = Inr 15500"
    by (simp add: order_X_def order_Y_def py_eq_def get_def total_sum_def line_amount_def
        get_default_def)
  have "orders_for [string_quantity_order, fractional_order, no_quantity_order] (VInt 3)
          = [string_quantity_order, fractional_order, no_quantity_order]"
    by (simp add: string_quantity_order_def fractional_order_def no_quantity_order_def
        py_eq_def get_def)
  then show "total_sum (orders_for [string_quantity_order, fractional_order, no_quantity_order]
               (VInt 3)) = Inr 55"
    by (simp add: total_sum_def line_amount_samples)
qed

text \<open>
  The three lines with a line of another invoice between them, in two orders.
\<close>

theorem order_total_is_sum_of_converted_amounts_witness:
  "converts (get_default string_quantity_order ''quantity'' (VInt 0)) 5
   \<and> converts (get_default fractional_order ''quantity'' (VInt 0)) 2
   \<and> converts (get_default no_quantity_order ''quantity'' (VInt 0)) 0
   \<and> \<not> matches (VInt 3) order_Z
   \<and> mset [no_quantity_order, fractional_order, order_Z, string_quantity_order]
       = mset [string_quantity_order, order_Z, fractional_order, no_quantity_order]
   \<and> total_sum (orders_for [string_quantity_order, order_Z, fractional_order, no_quantity_order]
         (VInt 3)) = Inr 55
   \<and> total_sum (orders_for [no_quantity_order, fractional_order, order_Z, string_quantity_order]
         (VInt 3)) = Inr 55"
proof -
  let ?xs = "[string_quantity_order, order_Z, fractional_order, no_quantity_order]"
  let ?ys = "[no_quantity_order, fractional_order, order_Z, string_quantity_order]"
  have five: "int_of_string ''5'' = Inr 5"
    by (simp add: int_of_string_def strip_def is_space_def digit_val_def)
  have "converts (VFloat (Fin (11 / 4))) 2"
    unfolding converts_def
    by (rule disjI2, rule disjI2, rule disjI2, rule disjI1, rule exI [of _ "11 / 4"]) simp
  then have q: "converts (get_default string_quantity_order ''quantity'' (VInt 0)) 5"
    "converts (get_default fractional_order ''quantity'' (VInt 0)) 2"
    "converts (get_default no_quantity_order ''quantity'' (VInt 0)) 0"
    by (simp_all add: get_default_def string_quantity_order_def
        fractional_order_def no_quantity_order_def)
      (simp_all add: converts_def five)
  have p: "converts (get_default string_quantity_order ''price'' (VInt 0)) 7"
    "converts (get_default fractional_order ''price'' (VInt 0)) 10"
    "converts (get_default no_quantity_order ''price'' (VInt 0)) 9"
    by (simp_all add: converts_def get_default_def string_quantity_order_def
        fractional_order_def no_quantity_order_def)
  have s: "sample_quantity string_quantity_order = 5" "sample_price string_quantity_order = 7"
    "sample_quantity fractional_order = 2" "sample_price fractional_order = 10"
    "sample_quantity no_quantity_order = 0" "sample_price no_quantity_order = 9"
    by (simp_all add: sample_quantity_def sample_price_def string_quantity_order_def
        fractional_order_def no_quantity_order_def)
  have z: "\<not> matches (VInt 3) order_Z"
    by (simp add: matches_def order_Z_def get_def py_eq_def)
  have m: "filter (matches (VInt 3)) ?xs = [string_quantity_order, fractional_order, no_quantity_order]"
    by (simp add: matches_def order_Z_def string_quantity_order_def fractional_order_def
        no_quantity_order_def get_def py_eq_def)
  have h: "\<forall>ol \<in> set ?xs. matches (VInt 3) ol \<longrightarrow>
        converts (get_default ol ''quantity'' (VInt 0)) (sample_quantity ol)
        \<and> converts (get_default ol ''price'' (VInt 0)) (sample_price ol)"
    using q p z by (simp add: s)
  have pm: "mset ?ys = mset ?xs"
    by simp
  note main = order_total_is_sum_of_converted_amounts
    [where all_orders = ?xs and sel = "VInt 3" and q = sample_quantity and p = sample_price,
      THEN conjunct1, THEN mp, OF h]
  from main [THEN conjunct1]
  have t: "total_sum (orders_for ?xs (VInt 3)) = Inr 55"
    unfolding m by (simp add: s)
  from main [THEN conjunct2, THEN spec, THEN mp, OF pm] t
  have t': "total_sum (orders_for ?ys (VInt 3)) = Inr 55"
    by simp
  show ?thesis
    by (intro conjI q z pm t t')
qed

text \<open>
  Claim C1 as stated fails: for the quantity \<open>2.75\<close> at the price 10 the total is 20,
  not 2.75 times 10.
\<close>

theorem fractional_quantity_is_truncated:
  "get fractional_order ''invoice_number'' = VInt 3
   \<and> get fractional_order ''quantity'' = VFloat (Fin (11 / 4))
   \<and> get fractional_order ''price'' = VInt 10
   \<and> orders_for [fractional_order] (VInt 3) = [fractional_order]
   \<and> total_sum (orders_for [fractional_order] (VInt 3)) = Inr 20
   \<and> (11 / 4 :: rat) * 10 \<noteq> 20"
proof -
  have f: "orders_for [fractional_order] (VInt 3) = [fractional_order]"
    by (simp add: fractional_order_def get_def py_eq_def)
  have "total_sum [fractional_order] = Inr 20"
    by (simp add: total_sum_def line_amount_samples)
  then show ?thesis
    unfolding f by (simp add: fractional_order_def get_def)
qed

text \<open>
  Claim C10, as amended. Order-line matching is Python's \<^verbatim>\<open>==\<close>, with no conversion
  between strings and numbers: a record matches exactly when its \<^verbatim>\<open>invoice_number\<close>
  is not a number and is the very value of the target, or when both are numbers
  (\<^verbatim>\<open>bool\<close>, \<^verbatim>\<open>int\<close>, \<^verbatim>\<open>float\<close>) of the same numerical value, which is not
  \<^verbatim>\<open>nan\<close>. So two integers match when they are equal, a float matches the integer
  it equals, \<^verbatim>\<open>True\<close> and \<^verbatim>\<open>False\<close> match 1 and 0, strings match equal strings, and
  a string never matches an integer: records whose invoice numbers are strings give,
  for an integer identifier, the empty match set and the total 0, without an error.
\<close>

theorem matching_is_python_equality:
  "matches target ol =
     ((as_number (get ol ''invoice_number'') = None \<and> get ol ''invoice_number'' = target)
      \<or> (\<exists>x. as_number (get ol ''invoice_number'') = Some x \<and> as_number target = Some x
             \<and> x \<noteq> NaN))
   \<and> py_eq (VInt m) (VInt n) = (m = n)
   \<and> py_eq (VFloat (Fin r)) (VInt n) = (r = of_int n)
   \<and> py_eq (VBool b) (VInt n) = (n = (if b then 1 else 0))
   \<and> py_eq (VStr s) (VStr t) = (s = t)
   \<and> \<not> py_eq (VStr s) (VInt n)
   \<and> \<not> py_eq (VInt n) (VStr s)
   \<and> ((\<forall>ol \<in> set all_orders. type_of (get ol ''invoice_number'') = TStr) \<longrightarrow>
        orders_for all_orders (VInt n) = []
        \<and> total_sum (orders_for all_orders (VInt n)) = Inr 0)"
proof (intro conjI impI)
  show "matches target ol =
     ((as_number (get ol ''invoice_number'') = None \<and> get ol ''invoice_number'' = target)
      \<or> (\<exists>x. as_number (get ol ''invoice_number'') = Some x \<and> as_number target = Some x
             \<and> x \<noteq> NaN))"
    unfolding matches_def by (rule py_eq_iff)
  show "py_eq (VInt m) (VInt n) = (m = n)"
    by (simp add: py_eq_def)
  show "py_eq (VFloat (Fin r)) (VInt n) = (r = of_int n)"
    by (simp add: py_eq_def)
  show "py_eq (VBool b) (VInt n) = (n = (if b then 1 else 0))"
    by (auto simp: py_eq_def)
  show "py_eq (VStr s) (VStr t) = (s = t)"
    by (simp add: py_eq_def)
  show "\<not> py_eq (VStr s) (VInt n)"
    by (simp add: py_eq_def)
  show "\<not> py_eq (VInt n) (VStr s)"
    by (simp add: py_eq_def)
next
  assume h: "\<forall>ol \<in> set all_orders. type_of (get ol ''invoice_number'') = TStr"
  have "\<not> matches (VInt n) ol" if "ol \<in> set all_orders" for ol
  proof -
    from h that have "type_of (get ol ''invoice_number'') = TStr" by simp
    then obtain s where "get ol ''invoice_number'' = VStr s"
      by (cases "get ol ''invoice_number''") simp_all
    then show ?thesis by (simp add: matches_def py_eq_def)
  qed
  then show e: "orders_for all_orders (VInt n) = []"
    by (simp add: orders_for_filter)
  show "total_sum (orders_for all_orders (VInt n)) = Inr 0"
    by (simp add: e total_sum_Nil)
qed

text \<open>
  The line with invoice number \<open>"3"\<close> against the identifier \<open>3\<close>; the line of
  invoice 7 does not match 3, the line of invoice \<open>3.0\<close> does.
\<close>

theorem matching_is_python_equality_witness:
  "type_of (get string_order ''invoice_number'') = TStr
   \<and> orders_for [string_order] (VInt 3) = []
   \<and> total_sum (orders_for [string_order] (VInt 3)) = Inr 0
   \<and> get order_Z ''invoice_number'' = VInt 7
   \<and> \<not> matches (VInt 3) order_Z
   \<and> matches (VInt 3) float_order"
proof -
  have t: "type_of (get string_order ''invoice_number'') = TStr"
    by (simp add: string_order_def get_def)
  then have "\<forall>ol \<in> set [string_order]. type_of (get ol ''invoice_number'') = TStr"
    by simp
  with matching_is_python_equality [where all_orders = "[string_order]" and n = 3]
  have a: "orders_for [string_order] (VInt 3) = []
      \<and> total_sum (orders_for [string_order] (VInt 3)) = Inr 0"
    by blast
  have z: "get order_Z ''invoice_number'' = VInt 7"
    by (simp add: order_Z_def get_def)
  have f: "get float_order ''invoice_number'' = VFloat (Fin 3)"
    by (simp add: float_order_def get_def)
  have "\<not> matches (VInt 3) order_Z"
    unfolding matching_is_python_equality [where target = "VInt 3" and ol = order_Z, THEN conjunct1] z
    by simp
  moreover have "matches (VInt 3) float_order"
    unfolding matching_is_python_equality [where target = "VInt 3" and ol = float_order, THEN conjunct1] f
    by simp
  ultimately show ?thesis
    by (intro conjI t a [THEN conjunct1] a [THEN conjunct2] z)
qed

text \<open>
  Claim C10 as stated fails: the line whose invoice number is the float \<open>3.0\<close> matches
  the integer identifier \<open>3\<close>, and \<^verbatim>\<open>True\<close> equals \<open>1\<close>, across types.
\<close>

theorem float_invoice_number_matches_integer:
  "type_of (get float_order ''invoice_number'') = TFloat
   \<and> type_of (VInt 3) = TInt
   \<and> orders_for [float_order] (VInt 3) = [float_order]
   \<and> py_eq (VBool True) (VInt 1)"
  by (simp add: float_order_def get_def py_eq_def)

section \<open>Properties of the loader\<close>

lemma trunc_of_int [simp]: "trunc (of_int n) = n"
  by (simp add: trunc_def)

lemma coerce_cell_int: "r k = Some (VInt n) \<Longrightarrow> coerce_cell w k r = Inr r"
  by (simp add: coerce_cell_def fun_upd_idem)

lemma csv_suffix: "lower (suffix_of ''order_1.csv'') = ''.csv''"
  by (simp add: suffix_of_def rfind_dot_def lower_def lower_char_def)

lemma json_suffix: "lower (suffix_of ''order_1.json'') = ''.json''"
  by (simp add: suffix_of_def rfind_dot_def lower_def lower_char_def)

lemma read_one_file_dir: "read_file (one_file_dir name records) f = Inr records"
  by (simp add: one_file_dir_def plain_world_def)

lemma coerce_cell_error: "coerce_cell w k r = Inl e \<Longrightarrow> e = IntCastingNaNError"
  unfolding coerce_cell_def
  by (cases "r k"; cases "fillna0 (to_numeric w (the (r k)))") (auto split: sum.splits)

lemma coerce_column_error: "coerce_column w k df = Inl e \<Longrightarrow> e = IntCastingNaNError"
  by (induction df arbitrary: e) (auto split: sum.splits dest: coerce_cell_error)

lemma coerce_cell_fields:
  assumes "coerce_cell w k r = Inr r'"
  shows "dom r' = dom r" and "k' \<noteq> k \<Longrightarrow> r' k' = r k'"
    and "r k \<noteq> None \<Longrightarrow> \<exists>n. r' k = Some (VInt n)"
  using assms unfolding coerce_cell_def
  by (auto split: option.splits sum.splits if_splits)

lemma coerce_column_rows:
  "coerce_column w k df = Inr df' \<Longrightarrow> list_all2 (\<lambda>r r'. coerce_cell w k r = Inr r') df df'"
  by (induction df arbitrary: df') (auto split: sum.splits)

lemma coerce_column_fields:
  assumes "coerce_column w k df = Inr df'"
  shows "length df' = length df"
    and "i < length df \<Longrightarrow> dom (df' ! i) = dom (df ! i)"
    and "i < length df \<Longrightarrow> k' \<noteq> k \<Longrightarrow> (df' ! i) k' = (df ! i) k'"
    and "i < length df \<Longrightarrow> (df ! i) k \<noteq> None \<Longrightarrow> \<exists>n. (df' ! i) k = Some (VInt n)"
proof -
  from coerce_column_rows [OF assms]
  have a: "list_all2 (\<lambda>r r'. coerce_cell w k r = Inr r') df df'" .
  then show "length df' = length df"
    by (simp add: list_all2_lengthD)
  assume "i < length df"
  with a have c: "coerce_cell w k (df ! i) = Inr (df' ! i)"
    by (rule list_all2_nthD)
  from coerce_cell_fields [OF c]
  show "dom (df' ! i) = dom (df ! i)"
    and "k' \<noteq> k \<Longrightarrow> (df' ! i) k' = (df ! i) k'"
    and "(df ! i) k \<noteq> None \<Longrightarrow> \<exists>n. (df' ! i) k = Some (VInt n)"
    by blast+
qed

lemma csv_malformed_cell_is_zero:
  "r k = Some (VStr s) \<Longrightarrow> parse_number w s = None \<Longrightarrow> coerce_cell w k r = Inr (r(k \<mapsto> VInt 0))"
  by (simp add: coerce_cell_def trunc_def)

lemma load_negative_csv:
  "load_data (one_file_dir ''order_1.csv'' [negative_order]) ''order_1.csv'' = Inr [negative_order]"
proof -
  have "coerce_cell w ''quantity'' negative_order = Inr negative_order"
    "coerce_cell w ''price'' negative_order = Inr negative_order"
    "coerce_cell w ''invoice_number'' negative_order = Inr negative_order" for w
    by (rule coerce_cell_int, simp add: negative_order_def)+
  then show ?thesis
    unfolding load_data_def csv_suffix read_one_file_dir by simp
qed

lemma load_malformed_csv:
  "load_data (one_file_dir ''order_1.csv'' [malformed_order]) ''order_1.csv''
     = Inr [malformed_order(''quantity'' \<mapsto> VInt 0)]"
proof -
  let ?w = "one_file_dir ''order_1.csv'' [malformed_order]"
  have "coerce_cell ?w ''quantity'' malformed_order = Inr (malformed_order(''quantity'' \<mapsto> VInt 0))"
    by (rule csv_malformed_cell_is_zero)
      (simp_all add: malformed_order_def one_file_dir_def plain_world_def)
  moreover have "coerce_cell ?w ''price'' (malformed_order(''quantity'' \<mapsto> VInt 0))
                   = Inr (malformed_order(''quantity'' \<mapsto> VInt 0))"
    by (rule coerce_cell_int) (simp add: malformed_order_def)
  moreover have "coerce_cell ?w ''invoice_number'' (malformed_order(''quantity'' \<mapsto> VInt 0))
                   = Inr (malformed_order(''quantity'' \<mapsto> VInt 0))"
    by (rule coerce_cell_int) (simp add: malformed_order_def)
  ultimately show ?thesis
    unfolding load_data_def csv_suffix read_one_file_dir by simp
qed

text \<open>
  Claim C5. \<^verbatim>\<open>load_data\<close> fails with the unsupported-format error exactly when the
  suffix of the file name, lower-cased, is neither \<^verbatim>\<open>.json\<close> nor \<^verbatim>\<open>.csv\<close>; for a
  supported suffix that error is never raised, whatever else goes wrong.
\<close>

theorem unsupported_format_iff:
  "(\<exists>s. load_data w file_path = Inl (UnsupportedFormat s))
   = (lower (suffix_of file_path) \<noteq> ''.json'' \<and> lower (suffix_of file_path) \<noteq> ''.csv'')"
  unfolding load_data_def
  by (auto split: sum.splits dest: coerce_column_error)

text \<open>A \<^verbatim>\<open>.txt\<close> file is refused with its suffix; an upper-case \<^verbatim>\<open>.CSV\<close> is read.\<close>

theorem unsupported_format_iff_witness:
  "load_data (one_file_dir ''notes.txt'' []) ''notes.txt'' = Inl (UnsupportedFormat ''.txt'')
   \<and> lower (suffix_of ''ORDER_1.CSV'') = ''.csv''
   \<and> load_data (one_file_dir ''ORDER_1.CSV'' []) ''ORDER_1.CSV'' = Inr []"
proof -
  have a: "lower (suffix_of ''notes.txt'') \<noteq> ''.json'' \<and> lower (suffix_of ''notes.txt'') \<noteq> ''.csv''"
    by (simp add: suffix_of_def rfind_dot_def lower_def lower_char_def)
  with unsupported_format_iff [of "one_file_dir ''notes.txt'' []" "''notes.txt''"]
  obtain s where "load_data (one_file_dir ''notes.txt'' []) ''notes.txt'' = Inl (UnsupportedFormat s)"
    by blast
  moreover from this a have "s = ''.txt''"
    by (simp add: load_data_def suffix_of_def rfind_dot_def)
  moreover have b: "lower (suffix_of ''ORDER_1.CSV'') = ''.csv''"
    by (simp add: suffix_of_def rfind_dot_def lower_def lower_char_def)
  moreover have "load_data (one_file_dir ''ORDER_1.CSV'' []) ''ORDER_1.CSV'' = Inr []"
    by (simp add: load_data_def b one_file_dir_def plain_world_def)
  ultimately show ?thesis by simp
qed

text \<open>
  Claim C3, as amended. When \<^verbatim>\<open>load_data\<close> succeeds it returns as many records as
  the parsed source has, and every field other than \<^verbatim>\<open>quantity\<close>, \<^verbatim>\<open>price\<close> and
  \<^verbatim>\<open>invoice_number\<close> is unchanged, for both formats; for a CSV source those three
  fields, where present, are integers after loading (of either sign).
\<close>

theorem load_data_fields:
  assumes "read_file w file_path = Inr src" and "load_data w file_path = Inr records"
  shows "length records = length src
    \<and> (\<forall>i<length src. \<forall>k. k \<notin> {''quantity'', ''price'', ''invoice_number''} \<longrightarrow>
          (records ! i) k = (src ! i) k)
    \<and> (lower (suffix_of file_path) = ''.csv'' \<longrightarrow>
         (\<forall>i<length src. \<forall>k \<in> {''quantity'', ''price'', ''invoice_number''}.
            (src ! i) k \<noteq> None \<longrightarrow> (\<exists>n. (records ! i) k = Some (VInt n))))"
proof (cases "lower (suffix_of file_path) = ''.json''")
  case True
  with assms have "records = src"
    by (simp add: load_data_def)
  with True show ?thesis by simp
next
  case False
  have csv: "lower (suffix_of file_path) = ''.csv''"
  proof (rule ccontr)
    assume "lower (suffix_of file_path) \<noteq> ''.csv''"
    with False assms(2) show False
      by (simp add: load_data_def)
  qed
  from assms(2) have chain:
    "(case coerce_column w ''quantity'' src of
        Inl e \<Rightarrow> Inl e
      | Inr df1 \<Rightarrow>
          (case coerce_column w ''price'' df1 of
             Inl e \<Rightarrow> Inl e
           | Inr df2 \<Rightarrow> coerce_column w ''invoice_number'' df2)) = Inr records"
    unfolding load_data_def csv assms(1) by simp
  from chain obtain df1 where c1: "coerce_column w ''quantity'' src = Inr df1"
    by (cases "coerce_column w ''quantity'' src") simp_all
  from chain obtain df2 where c2: "coerce_column w ''price'' df1 = Inr df2"
    unfolding c1 by (cases "coerce_column w ''price'' df1") simp_all
  from chain have c3: "coerce_column w ''invoice_number'' df2 = Inr records"
    by (simp add: c1 c2)
  note f1 = coerce_column_fields [OF c1]
  note f2 = coerce_column_fields [OF c2]
  note f3 = coerce_column_fields [OF c3]
  have len: "length records = length src" "length df1 = length src" "length df2 = length src"
    by (simp_all add: f1(1) f2(1) f3(1))
  have other: "(records ! i) k = (src ! i) k"
    if i: "i < length src" and k: "k \<noteq> ''quantity''" "k \<noteq> ''price''" "k \<noteq> ''invoice_number''"
    for i k
  proof -
    have "(records ! i) k = (df2 ! i) k"
      by (rule f3(3)) (simp_all only: len i k not_False_eq_True)
    also have "\<dots> = (df1 ! i) k"
      by (rule f2(3)) (simp_all only: len i k not_False_eq_True)
    also have "\<dots> = (src ! i) k"
      by (rule f1(3)) (simp_all only: len i k not_False_eq_True)
    finally show ?thesis .
  qed
  have dom1: "(df1 ! i) k \<noteq> None" if i: "i < length src" and s: "(src ! i) k \<noteq> None" for i k
  proof -
    have "dom (df1 ! i) = dom (src ! i)"
      by (rule f1(2)) (rule i)
    with s show ?thesis by (auto simp: dom_def set_eq_iff)
  qed
  have dom2: "(df2 ! i) k \<noteq> None" if i: "i < length src" and s: "(src ! i) k \<noteq> None" for i k
  proof -
    from i have i1: "i < length df1" by (simp only: len)
    have "dom (df2 ! i) = dom (df1 ! i)"
      by (rule f2(2)) (rule i1)
    with dom1 [OF i s] show ?thesis by (auto simp: dom_def set_eq_iff)
  qed
  have q: "\<exists>n. (records ! i) ''quantity'' = Some (VInt n)"
    if i: "i < length src" and s: "(src ! i) ''quantity'' \<noteq> None" for i
  proof -
    from i have i1: "i < length df1" and i2: "i < length df2" by (simp_all only: len)
    from f1(4) [OF i s] obtain n where "(df1 ! i) ''quantity'' = Some (VInt n)" ..
    moreover have "(df2 ! i) ''quantity'' = (df1 ! i) ''quantity''"
      by (rule f2(3) [OF i1]) simp
    moreover have "(records ! i) ''quantity'' = (df2 ! i) ''quantity''"
      by (rule f3(3) [OF i2]) simp
    ultimately show ?thesis by simp
  qed
  have p: "\<exists>n. (records ! i) ''price'' = Some (VInt n)"
    if i: "i < length src" and s: "(src ! i) ''price'' \<noteq> None" for i
  proof -
    from i have i1: "i < length df1" and i2: "i < length df2" by (simp_all only: len)
    from f2(4) [OF i1 dom1 [OF i s]] obtain n where "(df2 ! i) ''price'' = Some (VInt n)" ..
    moreover have "(records ! i) ''price'' = (df2 ! i) ''price''"
      by (rule f3(3) [OF i2]) simp
    ultimately show ?thesis by simp
  qed
  have v: "\<exists>n. (records ! i) ''invoice_number'' = Some (VInt n)"
    if i: "i < length src" and s: "(src ! i) ''invoice_number'' \<noteq> None" for i
  proof -
    from i have i2: "i < length df2" by (simp only: len)
    from f3(4) [OF i2 dom2 [OF i s]] show ?thesis .
  qed
  show ?thesis
  proof (intro conjI allI impI ballI)
    show "length records = length src" by (rule len(1))
    show "(records ! i) k = (src ! i) k"
      if "i < length src" "k \<notin> {''quantity'', ''price'', ''invoice_number''}" for i k
      using that by (intro other) auto
    show "\<exists>n. (records ! i) k = Some (VInt n)"
      if "i < length src" "k \<in> {''quantity'', ''price'', ''invoice_number''}"
        "(src ! i) k \<noteq> None" for i k
      using that q [of i] p [of i] v [of i] by auto
  qed
qed

text \<open>The CSV file with the quantity \<open>abc\<close>: the quantity becomes 0, the name stays.\<close>

theorem load_data_fields_witness:
  "read_file (one_file_dir ''order_1.csv'' [malformed_order]) ''order_1.csv'' = Inr [malformed_order]
   \<and> load_data (one_file_dir ''order_1.csv'' [malformed_order]) ''order_1.csv''
       = Inr [malformed_order(''quantity'' \<mapsto> VInt 0)]
   \<and> lower (suffix_of ''order_1.csv'') = ''.csv''
   \<and> malformed_order ''quantity'' = Some (VStr ''abc'')
   \<and> (\<exists>n. ([malformed_order(''quantity'' \<mapsto> VInt 0)] ! 0) ''quantity'' = Some (VInt n))
   \<and> ([malformed_order(''quantity'' \<mapsto> VInt 0)] ! 0) ''product_name''
       = ([malformed_order] ! 0) ''product_name''"
proof -
  let ?rs = "[malformed_order(''quantity'' \<mapsto> VInt 0)]"
  have q: "malformed_order ''quantity'' = Some (VStr ''abc'')"
    by (simp add: malformed_order_def)
  note t = load_data_fields [OF read_one_file_dir load_malformed_csv]
  from t have a: "\<forall>i<length [malformed_order].
      \<forall>k. k \<notin> {''quantity'', ''price'', ''invoice_number''} \<longrightarrow> (?rs ! i) k = ([malformed_order] ! i) k"
    by (rule conjunct1 [OF conjunct2])
  from t csv_suffix have b: "\<forall>i<length [malformed_order].
      \<forall>k \<in> {''quantity'', ''price'', ''invoice_number''}.
        ([malformed_order] ! i) k \<noteq> None \<longrightarrow> (\<exists>n. (?rs ! i) k = Some (VInt n))"
    by (rule conjunct2 [OF conjunct2, THEN mp])
  from a have a0: "''product_name'' \<notin> {''quantity'', ''price'', ''invoice_number''} \<longrightarrow>
      (?rs ! 0) ''product_name'' = ([malformed_order] ! 0) ''product_name''"
    by (elim allE [of _ 0] allE [of _ "''product_name''"]) simp
  then have a1: "(?rs ! 0) ''product_name'' = ([malformed_order] ! 0) ''product_name''"
    by simp
  from b have "\<forall>k \<in> {''quantity'', ''price'', ''invoice_number''}.
        ([malformed_order] ! 0) k \<noteq> None \<longrightarrow> (\<exists>n. (?rs ! 0) k = Some (VInt n))"
    by (elim allE [of _ 0]) simp
  then have "([malformed_order] ! 0) ''quantity'' \<noteq> None \<longrightarrow> (\<exists>n. (?rs ! 0) ''quantity'' = Some (VInt n))"
    by (rule bspec) simp
  with q have b1: "\<exists>n. (?rs ! 0) ''quantity'' = Some (VInt n)"
    by simp
  show ?thesis
    by (intro conjI read_one_file_dir load_malformed_csv csv_suffix q a1 b1)
qed

text \<open>
  Claim C3 as stated fails: a CSV quantity of \<open>-5\<close> is \<open>-5\<close> after loading, an
  integer but not a non-negative one.
\<close>

theorem csv_negative_quantity_stays_negative:
  "map_sum id (map (\<lambda>r. get r ''quantity''))
     (load_data (one_file_dir ''order_1.csv'' [negative_order]) ''order_1.csv'') = Inr [VInt (- 5)]"
  unfolding load_negative_csv by (simp add: negative_order_def get_def)

text \<open>
  Claim C4, at the input where the code departs from it. A JSON order file whose only
  line has the quantity \<open>"abc"\<close> is loaded with that quantity unchanged, and the total
  of the order branch then raises \<^verbatim>\<open>ValueError\<close> out of \<^verbatim>\<open>process_document\<close>, with no
  document written; the same line in a CSV file is loaded with the quantity 0.
\<close>

theorem malformed_json_quantity_raises:
  "map_sum id (map (\<lambda>r. get r ''quantity''))
     (load_data (one_file_dir ''order_1.json'' [malformed_order]) ''order_1.json'') = Inr [VStr ''abc'']
   \<and> process_document (one_file_dir ''order_1.json'' [malformed_order]) three_ones Map.empty
       = (Raised ValueError, Map.empty)
   \<and> map_sum id (map (\<lambda>r. get r ''quantity''))
     (load_data (one_file_dir ''order_1.csv'' [malformed_order]) ''order_1.csv'') = Inr [VInt 0]"
proof (intro conjI)
  let ?w = "one_file_dir ''order_1.json'' [malformed_order]"
  have ld: "load_data ?w ''order_1.json'' = Inr [malformed_order]"
    by (simp add: load_data_def json_suffix read_one_file_dir)
  show "map_sum id (map (\<lambda>r. get r ''quantity'')) (load_data ?w ''order_1.json'') = Inr [VStr ''abc'']"
    unfolding ld by (simp add: malformed_order_def get_def)
  have files: "list_files (data_dir ?w) [] [] = [''order_1.json'']"
    "list_files (templates_dir ?w) [] ''.html'' = [''order_template.html'']"
    "order_files_of ?w = [''order_1.json'']"
    by (simp_all add: order_files_of_def list_files_def glob_match_def one_file_dir_def plain_world_def)
  have sel: "select_and_load ?w three_ones
               = Inr (''order_1.json'', ''order_template.html'', [malformed_order], [Numbers [1]])"
    by (simp add: select_and_load_def files three_ones_def ld)
  have ent: "entity_type_of ''order_1.json'' = ''order''"
    by (simp add: entity_type_of_def stem_def rfind_dot_def lower_def lower_char_def)
  have nums: "invoice_numbers_of [malformed_order] = Inr [VInt 3]"
    by (simp add: invoice_numbers_of_def malformed_order_def get_def)
  have flt: "orders_for [malformed_order] (VInt 3) = [malformed_order]"
    by (simp add: malformed_order_def get_def py_eq_def)
  have tot: "total_sum [malformed_order] = Inl ValueError"
    by (simp add: total_sum_def line_amount_def malformed_order_def get_default_def
        int_of_string_def strip_def is_space_def digit_val_def)
  have menu: "display_menu (length [VInt 3]) [Numbers [1]] = (Inr 0, [])"
    by simp
  have ob: "order_branch ?w ''order_template.html'' [Numbers [1]] Map.empty = (Raised ValueError, Map.empty)"
    unfolding order_branch_def files list.case ld sum.case nums menu prod.case Let_def
      nth_Cons_0 flt tot
    by simp
  have dp: "dispatch ?w ''order_1.json'' ''order_template.html'' [malformed_order] [Numbers [1]] Map.empty
     = order_branch ?w ''order_template.html'' [Numbers [1]] Map.empty"
    unfolding dispatch_def ent Let_def by simp
  show "process_document ?w three_ones Map.empty = (Raised ValueError, Map.empty)"
    unfolding process_document_def sel sum.case prod.case dp ob by simp
  show "map_sum id (map (\<lambda>r. get r ''quantity''))
     (load_data (one_file_dir ''order_1.csv'' [malformed_order]) ''order_1.csv'') = Inr [VInt 0]"
    unfolding load_malformed_csv by (simp add: get_def)
qed

section \<open>Properties of \<^verbatim>\<open>process_document\<close>\<close>

lemma display_menu_range: "display_menu n answers = (Inr i, rest) \<Longrightarrow> i < n"
  by (induction n answers rule: display_menu.induct) (auto split: if_splits)

lemma display_multi_select_menu_range:
  "display_multi_select_menu n answers = (Inr sel, rest) \<Longrightarrow> \<forall>i \<in> set sel. i < n"
  by (induction n answers rule: display_multi_select_menu.induct)
    (auto split: if_splits simp: nat_less_iff)

lemma column_of_values:
  "column_of k all_data = Inr vs \<Longrightarrow>
   length vs = length all_data \<and> (\<forall>i<length all_data. (all_data ! i) k = Some (vs ! i))"
proof (induction all_data arbitrary: vs)
  case Nil
  then show ?case by simp
next
  case (Cons item all_data)
  from Cons.prems obtain v vs' where v: "item k = Some v"
    and r: "column_of k all_data = Inr vs'" and vs: "vs = v # vs'"
    by (auto simp: subscript_def split: option.splits sum.splits)
  from Cons.IH [OF r] show ?case
    by (auto simp: vs v nth_Cons split: nat.splits)
qed

lemma product_list_of_ids:
  "product_list_of all_data = Inr ls \<Longrightarrow>
   length ls = length all_data \<and> (\<forall>i<length all_data. (all_data ! i) ''id'' \<noteq> None)"
proof (induction all_data arbitrary: ls)
  case Nil
  then show ?case by simp
next
  case (Cons item all_data)
  from Cons.prems obtain ls' where v: "item ''id'' \<noteq> None"
    and r: "product_list_of all_data = Inr ls'" and ls: "ls = () # ls'"
    by (auto simp: subscript_def split: option.splits sum.splits)
  from Cons.IH [OF r] show ?case
    using v by (auto simp: ls nth_Cons split: nat.splits)
qed

lemma process_document_dispatch:
  "select_and_load w answers = Inr (f, tmpl, all_data, rest) \<Longrightarrow>
   process_document w answers out = dispatch w f tmpl all_data rest out"
  by (simp add: process_document_def)

lemma dispatch_invoice:
  "entity_type_of f = ''invoice'' \<Longrightarrow>
   dispatch w f tmpl all_data rest out = invoice_branch w tmpl all_data rest out"
  by (simp add: dispatch_def)

lemma dispatch_product:
  "entity_type_of f = ''product'' \<Longrightarrow>
   dispatch w f tmpl all_data rest out = product_branch w tmpl all_data rest out"
  by (simp add: dispatch_def)

lemma dispatch_order:
  "entity_type_of f = ''order'' \<Longrightarrow>
   dispatch w f tmpl all_data rest out = order_branch w tmpl rest out"
  by (simp add: dispatch_def)

lemma dispatch_unknown:
  "entity_type_of f \<noteq> ''invoice'' \<Longrightarrow> entity_type_of f \<noteq> ''product'' \<Longrightarrow>
   entity_type_of f \<noteq> ''order'' \<Longrightarrow>
   dispatch w f tmpl all_data rest out = (Failed (UnknownEntity (entity_type_of f)), out)"
  by (simp add: dispatch_def)

lemma invoice_branch_selected:
  assumes "column_of ''id'' all_data = Inr invoice_ids"
    and "display_menu (length invoice_ids) answers = (Inr i, rest)"
  shows "invoice_branch w tmpl all_data answers out =
           generate_pdf w tmpl (InvoiceCtx (all_data ! i) (related_orders w (all_data ! i)))
             (''invoice_'' @ py_str w (invoice_ids ! i) @ ''.pdf'') out"
proof -
  from display_menu_range [OF assms(2)] column_of_values [OF assms(1)]
  have "(all_data ! i) ''id'' = Some (invoice_ids ! i)"
    by simp
  then have "subscript (all_data ! i) ''id'' = Inr (invoice_ids ! i)"
    by (simp add: subscript_def)
  then show ?thesis
    by (simp add: invoice_branch_def assms Let_def)
qed

lemma related_orders_none:
  "order_files_of w = [] \<Longrightarrow> related_orders w invoice = []"
  "order_files_of w = f # fs \<Longrightarrow> load_data w f = Inl e \<Longrightarrow> related_orders w invoice = []"
  by (simp_all add: related_orders_def)

lemma related_orders_loaded:
  "order_files_of w = f # fs \<Longrightarrow> load_data w f = Inr all_orders \<Longrightarrow> invoice ''id'' = Some v \<Longrightarrow>
   related_orders w invoice = orders_for all_orders v"
  by (cases all_orders) (simp_all add: related_orders_def subscript_def)

lemma order_branch_selected:
  assumes "order_files_of w = f # fs" and "load_data w f = Inr all_orders"
    and "invoice_numbers_of all_orders = Inr invoice_numbers"
    and "display_menu (length invoice_numbers) answers = (Inr i, rest)"
    and "total_sum (orders_for all_orders (invoice_numbers ! i)) = Inr amount"
  shows "order_branch w tmpl answers out =
           generate_pdf w tmpl
             (OrderCtx (invoice_numbers ! i) (orders_for all_orders (invoice_numbers ! i)) amount)
             (''order_invoice_'' @ py_str w (invoice_numbers ! i) @ ''.pdf'') out"
  by (simp add: order_branch_def assms Let_def)

lemma product_branch_selected:
  assumes "product_list_of all_data = Inr product_list"
    and "display_multi_select_menu (length product_list) answers = (Inr selected_indices, rest)"
  shows "length selected_indices = 1 \<Longrightarrow>
           \<exists>v. (all_data ! (selected_indices ! 0)) ''id'' = Some v
             \<and> product_branch w tmpl all_data answers out =
                 generate_pdf w tmpl (ProductsCtx (map ((!) all_data) selected_indices))
                   (''product_'' @ py_str w v @ ''.pdf'') out"
    and "length selected_indices \<noteq> 1 \<Longrightarrow>
           product_branch w tmpl all_data answers out =
             generate_pdf w tmpl (ProductsCtx (map ((!) all_data) selected_indices))
               (''products_'' @ str_of_nat (length selected_indices) @ ''.pdf'') out"
proof -
  note ids = product_list_of_ids [OF assms(1)]
  note rng = display_multi_select_menu_range [OF assms(2)]
  {
    assume one: "length selected_indices = 1"
    then have "selected_indices ! 0 \<in> set selected_indices"
      by (cases selected_indices) simp_all
    with rng ids have "(all_data ! (selected_indices ! 0)) ''id'' \<noteq> None"
      by simp
    then obtain v where v: "(all_data ! (selected_indices ! 0)) ''id'' = Some v"
      by blast
    then have "subscript (map ((!) all_data) selected_indices ! 0) ''id'' = Inr v"
      using one by (simp add: subscript_def)
    then have "product_branch w tmpl all_data answers out =
                 generate_pdf w tmpl (ProductsCtx (map ((!) all_data) selected_indices))
                   (''product_'' @ py_str w v @ ''.pdf'') out"
      using one by (simp add: product_branch_def assms Let_def)
    with v show "\<exists>v. (all_data ! (selected_indices ! 0)) ''id'' = Some v
             \<and> product_branch w tmpl all_data answers out =
                 generate_pdf w tmpl (ProductsCtx (map ((!) all_data) selected_indices))
                   (''product_'' @ py_str w v @ ''.pdf'') out"
      by blast
  }
  assume "length selected_indices \<noteq> 1"
  then show "product_branch w tmpl all_data answers out =
             generate_pdf w tmpl (ProductsCtx (map ((!) all_data) selected_indices))
               (''products_'' @ str_of_nat (length selected_indices) @ ''.pdf'') out"
    by (simp add: product_branch_def assms Let_def)
qed

lemma one_file_dir_files:
  "list_files (data_dir (one_file_dir name records)) [] [] = [name]"
  "list_files (templates_dir (one_file_dir name records)) [] ''.html'' = [''order_template.html'']"
  by (simp_all add: list_files_def glob_match_def one_file_dir_def plain_world_def)

lemma one_file_dir_select:
  assumes "load_data (one_file_dir name records) name = Inr all_data"
  shows "select_and_load (one_file_dir name records) (Numbers [1] # Numbers [1] # rest)
           = Inr (name, ''order_template.html'', all_data, rest)"
  by (simp add: select_and_load_def one_file_dir_files assms)

lemma load_json:
  "lower (suffix_of name) = ''.json'' \<Longrightarrow> read_file w name = Inr records \<Longrightarrow>
   load_data w name = Inr records"
  by (simp add: load_data_def)

lemma render_plain: "render_pdf (plain_world names templates contents) t c = Inr ''%PDF''"
  by (simp add: plain_world_def)

lemma generate_plain:
  "generate_pdf (plain_world names templates contents) t c name out = (Done, out(name \<mapsto> ''%PDF''))"
  by (simp add: generate_pdf_def render_plain)

lemma invoice_json_facts:
  "lower (suffix_of ''invoice_1.json'') = ''.json''"
  "entity_type_of ''invoice_1.json'' = ''invoice''"
  by (simp_all add: suffix_of_def entity_type_of_def stem_def rfind_dot_def lower_def lower_char_def)

lemma invoice_4_ids: "column_of ''id'' [invoice_4] = Inr [VInt 4]"
  by (simp add: subscript_def invoice_4_def)

lemma first_of_one: "display_menu (length [v]) (Numbers [1] # rest) = (Inr 0, rest)"
  by simp

lemma str_of_int_digit: "str_of_int 3 = ''3''" "str_of_int 4 = ''4''"
  by (simp_all add: str_of_int_def str_of_nat.simps)

lemma unreadable_orders_dir_facts:
  "order_files_of unreadable_orders_dir = [''order_1.csv'']"
  "load_data unreadable_orders_dir ''order_1.csv'' = Inl (DataLoadError IOFailure)"
  "select_and_load unreadable_orders_dir three_ones
     = Inr (''invoice_1.json'', ''invoice_template.html'', [invoice_4], [Numbers [1]])"
proof -
  show "order_files_of unreadable_orders_dir = [''order_1.csv'']"
    by (simp add: order_files_of_def list_files_def glob_match_def unreadable_orders_dir_def
        plain_world_def)
  show "load_data unreadable_orders_dir ''order_1.csv'' = Inl (DataLoadError IOFailure)"
    by (simp add: load_data_def csv_suffix unreadable_orders_dir_def plain_world_def)
  have files: "list_files (data_dir unreadable_orders_dir) [] [] = [''invoice_1.json'', ''order_1.csv'']"
    "list_files (templates_dir unreadable_orders_dir) [] ''.html'' = [''invoice_template.html'']"
    by (simp_all add: list_files_def glob_match_def unreadable_orders_dir_def plain_world_def)
  have "read_file unreadable_orders_dir ''invoice_1.json'' = Inr [invoice_4]"
    by (simp add: unreadable_orders_dir_def plain_world_def)
  then have "load_data unreadable_orders_dir ''invoice_1.json'' = Inr [invoice_4]"
    by (rule load_json [OF invoice_json_facts(1)])
  then show "select_and_load unreadable_orders_dir three_ones
     = Inr (''invoice_1.json'', ''invoice_template.html'', [invoice_4], [Numbers [1]])"
    by (simp add: select_and_load_def files three_ones_def)
qed

text \<open>
  Claim C6. When the run has selected and loaded a data file whose entity token,
  lower-cased, is none of \<^verbatim>\<open>invoice\<close>, \<^verbatim>\<open>product\<close> and \<^verbatim>\<open>order\<close>, the run fails
  with the unknown-entity message for that token, and the output directory is as it
  was: no document is written.
\<close>

theorem unknown_entity_fails_without_artifact:
  assumes "select_and_load w answers = Inr (selected_data_file, selected_template, all_data, rest)"
    and "entity_type_of selected_data_file \<notin> {''invoice'', ''product'', ''order''}"
  shows "process_document w answers out
           = (Failed (UnknownEntity (entity_type_of selected_data_file)), out)"
proof -
  from assms(2) have "entity_type_of selected_data_file \<noteq> ''invoice''"
    "entity_type_of selected_data_file \<noteq> ''product''"
    "entity_type_of selected_data_file \<noteq> ''order''"
    by simp_all
  then show ?thesis
    unfolding process_document_dispatch [OF assms(1)] by (rule dispatch_unknown)
qed

text \<open>The data file \<^verbatim>\<open>Widget_1.json\<close>: the token \<open>widget\<close> is unknown.\<close>

theorem unknown_entity_fails_without_artifact_witness:
  "select_and_load (one_file_dir ''Widget_1.json'' []) three_ones
     = Inr (''Widget_1.json'', ''order_template.html'', [], [Numbers [1]])
   \<and> entity_type_of ''Widget_1.json'' = ''widget''
   \<and> process_document (one_file_dir ''Widget_1.json'' []) three_ones Map.empty
       = (Failed (UnknownEntity ''widget''), Map.empty)"
proof -
  have sfx: "lower (suffix_of ''Widget_1.json'') = ''.json''"
    by (simp add: suffix_of_def rfind_dot_def lower_def lower_char_def)
  have sel: "select_and_load (one_file_dir ''Widget_1.json'' []) three_ones
     = Inr (''Widget_1.json'', ''order_template.html'', [], [Numbers [1]])"
    unfolding three_ones_def
    by (rule one_file_dir_select) (rule load_json [OF sfx read_one_file_dir])
  have ent: "entity_type_of ''Widget_1.json'' = ''widget''"
    by (simp add: entity_type_of_def stem_def rfind_dot_def lower_def lower_char_def)
  then have "entity_type_of ''Widget_1.json'' \<notin> {''invoice'', ''product'', ''order''}"
    by simp
  from unknown_entity_fails_without_artifact [OF sel this, of Map.empty] sel ent
  show ?thesis by simp
qed

text \<open>
  Claim C7. In the invoice branch, when there is no order file or the load of the
  first order file fails, the run goes on: \<^verbatim>\<open>generate_pdf\<close> is called with the selected
  invoice and an empty list of orders, under the name \<^verbatim>\<open>invoice_<id>.pdf\<close>, and what the
  run returns is what that call returns; when the template renders, the run succeeds
  and the document is written.
\<close>

theorem invoice_without_orders_still_generated:
  assumes "select_and_load w answers = Inr (selected_data_file, selected_template, all_data, rest)"
    and "entity_type_of selected_data_file = ''invoice''"
    and "column_of ''id'' all_data = Inr invoice_ids"
    and "display_menu (length invoice_ids) rest = (Inr i, rest')"
    and "order_files_of w = [] \<or> (\<exists>f fs e. order_files_of w = f # fs \<and> load_data w f = Inl e)"
  shows "process_document w answers out
           = generate_pdf w selected_template (InvoiceCtx (all_data ! i) [])
               (''invoice_'' @ py_str w (invoice_ids ! i) @ ''.pdf'') out
         \<and> (\<forall>document.
               render_pdf w selected_template (InvoiceCtx (all_data ! i) []) = Inr document \<longrightarrow>
               process_document w answers out
                 = (Done, out(''invoice_'' @ py_str w (invoice_ids ! i) @ ''.pdf'' \<mapsto> document)))"
proof -
  from assms(5) have "related_orders w (all_data ! i) = []"
    by (auto simp: related_orders_none)
  with invoice_branch_selected [OF assms(3) assms(4), of w selected_template out]
  have "process_document w answers out
           = generate_pdf w selected_template (InvoiceCtx (all_data ! i) [])
               (''invoice_'' @ py_str w (invoice_ids ! i) @ ''.pdf'') out"
    by (simp add: process_document_dispatch [OF assms(1)] dispatch_invoice [OF assms(2)])
  then show ?thesis
    by (simp add: generate_pdf_def)
qed

text \<open>
  Invoice 4 in a directory without order files, and in one whose order file is
  unreadable: \<^verbatim>\<open>invoice_4.pdf\<close> is written both times.
\<close>

theorem invoice_without_orders_still_generated_witness:
  "select_and_load (one_file_dir ''invoice_1.json'' [invoice_4]) three_ones
     = Inr (''invoice_1.json'', ''order_template.html'', [invoice_4], [Numbers [1]])
   \<and> entity_type_of ''invoice_1.json'' = ''invoice''
   \<and> column_of ''id'' [invoice_4] = Inr [VInt 4]
   \<and> display_menu (length [VInt 4]) [Numbers [1]] = (Inr 0, [])
   \<and> order_files_of (one_file_dir ''invoice_1.json'' [invoice_4]) = []
   \<and> process_document (one_file_dir ''invoice_1.json'' [invoice_4]) three_ones Map.empty
       = (Done, [''invoice_4.pdf'' \<mapsto> ''%PDF''])
   \<and> order_files_of unreadable_orders_dir = [''order_1.csv'']
   \<and> load_data unreadable_orders_dir ''order_1.csv'' = Inl (DataLoadError IOFailure)
   \<and> process_document unreadable_orders_dir three_ones Map.empty
       = (Done, [''invoice_4.pdf'' \<mapsto> ''%PDF''])"
proof -
  let ?w = "one_file_dir ''invoice_1.json'' [invoice_4]"
  have sel: "select_and_load ?w three_ones
     = Inr (''invoice_1.json'', ''order_template.html'', [invoice_4], [Numbers [1]])"
    unfolding three_ones_def
    by (rule one_file_dir_select) (rule load_json [OF invoice_json_facts(1) read_one_file_dir])
  have none: "order_files_of ?w = []"
    by (simp add: order_files_of_def list_files_def glob_match_def one_file_dir_def plain_world_def)
  then have h: "order_files_of ?w = []
      \<or> (\<exists>f fs e. order_files_of ?w = f # fs \<and> load_data ?w f = Inl e)"
    by (rule disjI1)
  have h': "order_files_of unreadable_orders_dir = []
      \<or> (\<exists>f fs e. order_files_of unreadable_orders_dir = f # fs
            \<and> load_data unreadable_orders_dir f = Inl e)"
    using unreadable_orders_dir_facts(1,2) by blast
  from invoice_without_orders_still_generated
    [OF sel invoice_json_facts(2) invoice_4_ids first_of_one h, of Map.empty]
  have a: "process_document ?w three_ones Map.empty = (Done, [''invoice_4.pdf'' \<mapsto> ''%PDF''])"
    by (simp add: str_of_int_digit one_file_dir_def generate_plain)
  from invoice_without_orders_still_generated
    [OF unreadable_orders_dir_facts(3) invoice_json_facts(2) invoice_4_ids first_of_one h',
      of Map.empty]
  have b: "process_document unreadable_orders_dir three_ones Map.empty
             = (Done, [''invoice_4.pdf'' \<mapsto> ''%PDF''])"
    by (simp add: str_of_int_digit unreadable_orders_dir_def generate_plain)
  show ?thesis
    by (intro conjI sel invoice_json_facts(2) invoice_4_ids first_of_one none a b
        unreadable_orders_dir_facts(1,2))
qed

lemma generate_pdf_writes:
  "generate_pdf w tmpl data name out = (Done, out') \<Longrightarrow> \<exists>document. out' = out(name \<mapsto> document)"
  by (auto simp: generate_pdf_def split: sum.splits)

lemma order_json_facts:
  "entity_type_of ''order_1.json'' = ''order''"
  by (simp add: entity_type_of_def stem_def rfind_dot_def lower_def lower_char_def)

lemma product_json_facts:
  "lower (suffix_of ''product_1.json'') = ''.json''"
  "entity_type_of ''product_1.json'' = ''product''"
  by (simp_all add: suffix_of_def entity_type_of_def stem_def rfind_dot_def lower_def lower_char_def)

lemma five_products_list: "product_list_of five_products = Inr [(), (), (), (), ()]"
  by (simp add: five_products_def product_item_def subscript_def)

lemma select_one_and_three:
  "display_multi_select_menu (length [(), (), (), (), ()]) (Numbers [1, 3] # rest) = (Inr [0, 2], rest)"
  by simp

lemma select_two:
  "display_multi_select_menu (length [(), (), (), (), ()]) (Numbers [2] # rest) = (Inr [1], rest)"
  by simp

lemma sample_orders_facts:
  "invoice_numbers_of [order_X, order_Y] = Inr [VInt 3]"
  "orders_for [order_X, order_Y] (VInt 3) = [order_X, order_Y]"
  "total_sum [order_X, order_Y] = Inr 15500"
  by (simp_all add: invoice_numbers_of_def order_X_def order_Y_def get_def py_eq_def total_sum_def
      line_amount_def get_default_def)

lemma one_order_file:
  "order_files_of (one_file_dir ''order_1.json'' records) = [''order_1.json'']"
  by (simp add: order_files_of_def list_files_def glob_match_def one_file_dir_def plain_world_def)

text \<open>
  Claim C8, as amended. The name of the written file is fixed by the branch:
  \<^verbatim>\<open>invoice_<id>.pdf\<close> with the id of the selected invoice; \<^verbatim>\<open>product_<id>.pdf\<close> when
  exactly one catalog item is selected and \<^verbatim>\<open>products_<count>.pdf\<close> otherwise, with
  the number of selected entries; \<^verbatim>\<open>order_invoice_<number>.pdf\<close> with the selected
  invoice number. \<^verbatim>\<open>generate_pdf\<close> writes under exactly the name it is given.
  Selecting items 1 and 3 of five gives \<^verbatim>\<open>products_2.pdf\<close>.
\<close>

theorem output_file_name_by_branch:
  "(column_of ''id'' all_data = Inr invoice_ids
      \<and> display_menu (length invoice_ids) answers = (Inr i, rest) \<longrightarrow>
      (all_data ! i) ''id'' = Some (invoice_ids ! i)
      \<and> invoice_branch w tmpl all_data answers out =
          generate_pdf w tmpl (InvoiceCtx (all_data ! i) (related_orders w (all_data ! i)))
            (''invoice_'' @ py_str w (invoice_ids ! i) @ ''.pdf'') out)
   \<and> (product_list_of all_data = Inr product_list
      \<and> display_multi_select_menu (length product_list) answers = (Inr selected_indices, rest) \<longrightarrow>
      (if length selected_indices = 1
       then \<exists>v. (all_data ! (selected_indices ! 0)) ''id'' = Some v
              \<and> product_branch w tmpl all_data answers out =
                  generate_pdf w tmpl (ProductsCtx (map ((!) all_data) selected_indices))
                    (''product_'' @ py_str w v @ ''.pdf'') out
       else product_branch w tmpl all_data answers out =
              generate_pdf w tmpl (ProductsCtx (map ((!) all_data) selected_indices))
                (''products_'' @ str_of_nat (length selected_indices) @ ''.pdf'') out))
   \<and> (order_files_of w = f # fs \<and> load_data w f = Inr all_orders
      \<and> invoice_numbers_of all_orders = Inr invoice_numbers
      \<and> display_menu (length invoice_numbers) answers = (Inr i, rest)
      \<and> total_sum (orders_for all_orders (invoice_numbers ! i)) = Inr amount \<longrightarrow>
      order_branch w tmpl answers out =
        generate_pdf w tmpl
          (OrderCtx (invoice_numbers ! i) (orders_for all_orders (invoice_numbers ! i)) amount)
          (''order_invoice_'' @ py_str w (invoice_numbers ! i) @ ''.pdf'') out)
   \<and> (\<forall>data name out'. generate_pdf w tmpl data name out = (Done, out') \<longrightarrow>
         (\<exists>document. out' = out(name \<mapsto> document)))
   \<and> process_document (one_file_dir ''product_1.json'' five_products)
         [Numbers [1], Numbers [1], Numbers [1, 3]] Map.empty
       = (Done, [''products_2.pdf'' \<mapsto> ''%PDF''])"
proof (intro conjI impI allI)
  assume h: "column_of ''id'' all_data = Inr invoice_ids
      \<and> display_menu (length invoice_ids) answers = (Inr i, rest)"
  then have c: "column_of ''id'' all_data = Inr invoice_ids"
    and m: "display_menu (length invoice_ids) answers = (Inr i, rest)"
    by simp_all
  from display_menu_range [OF m] column_of_values [OF c]
  show "(all_data ! i) ''id'' = Some (invoice_ids ! i)"
    by simp
  show "invoice_branch w tmpl all_data answers out =
          generate_pdf w tmpl (InvoiceCtx (all_data ! i) (related_orders w (all_data ! i)))
            (''invoice_'' @ py_str w (invoice_ids ! i) @ ''.pdf'') out"
    by (rule invoice_branch_selected [OF c m])
next
  assume h: "product_list_of all_data = Inr product_list
      \<and> display_multi_select_menu (length product_list) answers = (Inr selected_indices, rest)"
  then have p: "product_list_of all_data = Inr product_list"
    and m: "display_multi_select_menu (length product_list) answers = (Inr selected_indices, rest)"
    by simp_all
  show "if length selected_indices = 1
       then \<exists>v. (all_data ! (selected_indices ! 0)) ''id'' = Some v
              \<and> product_branch w tmpl all_data answers out =
                  generate_pdf w tmpl (ProductsCtx (map ((!) all_data) selected_indices))
                    (''product_'' @ py_str w v @ ''.pdf'') out
       else product_branch w tmpl all_data answers out =
              generate_pdf w tmpl (ProductsCtx (map ((!) all_data) selected_indices))
                (''products_'' @ str_of_nat (length selected_indices) @ ''.pdf'') out"
  proof (cases "length selected_indices = 1")
    case True
    from product_branch_selected(1) [OF p m True, of w tmpl out] True show ?thesis
      by simp
  next
    case False
    from product_branch_selected(2) [OF p m False, of w tmpl out] False show ?thesis
      by simp
  qed
next
  assume h: "order_files_of w = f # fs \<and> load_data w f = Inr all_orders
      \<and> invoice_numbers_of all_orders = Inr invoice_numbers
      \<and> display_menu (length invoice_numbers) answers = (Inr i, rest)
      \<and> total_sum (orders_for all_orders (invoice_numbers ! i)) = Inr amount"
  show "order_branch w tmpl answers out =
        generate_pdf w tmpl
          (OrderCtx (invoice_numbers ! i) (orders_for all_orders (invoice_numbers ! i)) amount)
          (''order_invoice_'' @ py_str w (invoice_numbers ! i) @ ''.pdf'') out"
    using h by (intro order_branch_selected) (elim conjE, assumption)+
next
  fix data name out'
  assume "generate_pdf w tmpl data name out = (Done, out')"
  then show "\<exists>document. out' = out(name \<mapsto> document)"
    by (rule generate_pdf_writes)
next
  let ?w = "one_file_dir ''product_1.json'' five_products"
  have sel: "select_and_load ?w (Numbers [1] # Numbers [1] # [Numbers [1, 3]])
               = Inr (''product_1.json'', ''order_template.html'', five_products, [Numbers [1, 3]])"
    by (rule one_file_dir_select) (rule load_json [OF product_json_facts(1) read_one_file_dir])
  have two: "length [0::nat, 2] \<noteq> 1" by simp
  have "product_branch ?w ''order_template.html'' five_products [Numbers [1, 3]] Map.empty
          = (Done, [''products_2.pdf'' \<mapsto> ''%PDF''])"
    unfolding product_branch_selected(2) [OF five_products_list select_one_and_three two]
    by (simp add: one_file_dir_def generate_plain str_of_nat.simps)
  then show "process_document ?w [Numbers [1], Numbers [1], Numbers [1, 3]] Map.empty
       = (Done, [''products_2.pdf'' \<mapsto> ''%PDF''])"
    by (simp add: process_document_dispatch [OF sel] dispatch_product [OF product_json_facts(2)])
qed

text \<open>
  One run of each kind: invoice 4, catalog item 2 alone, catalog items 1 and 3, and the
  order lines of invoice 3.
\<close>

theorem output_file_name_by_branch_witness:
  "column_of ''id'' [invoice_4] = Inr [VInt 4]
   \<and> display_menu (length [VInt 4]) [Numbers [1]] = (Inr 0, [])
   \<and> invoice_branch (one_file_dir ''invoice_1.json'' [invoice_4]) ''t.html'' [invoice_4]
         [Numbers [1]] Map.empty = (Done, [''invoice_4.pdf'' \<mapsto> ''%PDF''])
   \<and> product_list_of five_products = Inr [(), (), (), (), ()]
   \<and> display_multi_select_menu (length [(), (), (), (), ()]) [Numbers [2]] = (Inr [1], [])
   \<and> product_branch (one_file_dir ''product_1.json'' five_products) ''t.html'' five_products
         [Numbers [2]] Map.empty = (Done, [''product_2.pdf'' \<mapsto> ''%PDF''])
   \<and> display_multi_select_menu (length [(), (), (), (), ()]) [Numbers [1, 3]] = (Inr [0, 2], [])
   \<and> product_branch (one_file_dir ''product_1.json'' five_products) ''t.html'' five_products
         [Numbers [1, 3]] Map.empty = (Done, [''products_2.pdf'' \<mapsto> ''%PDF''])
   \<and> order_files_of (one_file_dir ''order_1.json'' [order_X, order_Y]) = [''order_1.json'']
   \<and> invoice_numbers_of [order_X, order_Y] = Inr [VInt 3]
   \<and> order_branch (one_file_dir ''order_1.json'' [order_X, order_Y]) ''t.html''
         [Numbers [1]] Map.empty = (Done, [''order_invoice_3.pdf'' \<mapsto> ''%PDF''])"
proof -
  let ?wi = "one_file_dir ''invoice_1.json'' [invoice_4]"
  let ?wp = "one_file_dir ''product_1.json'' five_products"
  let ?wo = "one_file_dir ''order_1.json'' [order_X, order_Y]"
  have none: "related_orders ?wi invoice_4 = []"
    by (rule related_orders_none(1))
      (simp add: order_files_of_def list_files_def glob_match_def one_file_dir_def plain_world_def)
  have "invoice_branch ?wi ''t.html'' [invoice_4] [Numbers [1]] Map.empty =
          generate_pdf ?wi ''t.html'' (InvoiceCtx ([invoice_4] ! 0) (related_orders ?wi ([invoice_4] ! 0)))
            (''invoice_'' @ py_str ?wi ([VInt 4] ! 0) @ ''.pdf'') Map.empty"
    by (rule output_file_name_by_branch [THEN conjunct1, THEN mp, THEN conjunct2,
          OF conjI [OF invoice_4_ids first_of_one]])
  then have a: "invoice_branch ?wi ''t.html'' [invoice_4] [Numbers [1]] Map.empty
                  = (Done, [''invoice_4.pdf'' \<mapsto> ''%PDF''])"
    by (simp add: none str_of_int_digit one_file_dir_def generate_plain)
  have "if length [1::nat] = 1
       then \<exists>v. (five_products ! ([1] ! 0)) ''id'' = Some v
              \<and> product_branch ?wp ''t.html'' five_products [Numbers [2]] Map.empty =
                  generate_pdf ?wp ''t.html'' (ProductsCtx (map ((!) five_products) [1]))
                    (''product_'' @ py_str ?wp v @ ''.pdf'') Map.empty
       else product_branch ?wp ''t.html'' five_products [Numbers [2]] Map.empty =
              generate_pdf ?wp ''t.html'' (ProductsCtx (map ((!) five_products) [1]))
                (''products_'' @ str_of_nat (length [1::nat]) @ ''.pdf'') Map.empty"
    by (rule output_file_name_by_branch [THEN conjunct2, THEN conjunct1, THEN mp,
          OF conjI [OF five_products_list select_two]])
  then obtain v where v: "(five_products ! ([1] ! 0)) ''id'' = Some v"
    and pb: "product_branch ?wp ''t.html'' five_products [Numbers [2]] Map.empty =
           generate_pdf ?wp ''t.html'' (ProductsCtx (map ((!) five_products) [1]))
             (''product_'' @ py_str ?wp v @ ''.pdf'') Map.empty"
    by auto
  from v have "v = VInt 2"
    by (simp add: five_products_def product_item_def)
  with pb have b: "product_branch ?wp ''t.html'' five_products [Numbers [2]] Map.empty
                        = (Done, [''product_2.pdf'' \<mapsto> ''%PDF''])"
    by (simp add: str_of_int_def str_of_nat.simps one_file_dir_def generate_plain)
  have "if length [0::nat, 2] = 1
       then \<exists>v. (five_products ! ([0, 2] ! 0)) ''id'' = Some v
              \<and> product_branch ?wp ''t.html'' five_products [Numbers [1, 3]] Map.empty =
                  generate_pdf ?wp ''t.html'' (ProductsCtx (map ((!) five_products) [0, 2]))
                    (''product_'' @ py_str ?wp v @ ''.pdf'') Map.empty
       else product_branch ?wp ''t.html'' five_products [Numbers [1, 3]] Map.empty =
              generate_pdf ?wp ''t.html'' (ProductsCtx (map ((!) five_products) [0, 2]))
                (''products_'' @ str_of_nat (length [0::nat, 2]) @ ''.pdf'') Map.empty"
    by (rule output_file_name_by_branch [THEN conjunct2, THEN conjunct1, THEN mp,
          OF conjI [OF five_products_list select_one_and_three]])
  then have c: "product_branch ?wp ''t.html'' five_products [Numbers [1, 3]] Map.empty
                  = (Done, [''products_2.pdf'' \<mapsto> ''%PDF''])"
    by (simp add: str_of_nat.simps one_file_dir_def generate_plain)
  have ld: "load_data ?wo ''order_1.json'' = Inr [order_X, order_Y]"
    by (rule load_json [OF json_suffix read_one_file_dir])
  have t: "total_sum (orders_for [order_X, order_Y] ([VInt 3] ! 0)) = Inr 15500"
    unfolding nth_Cons_0 sample_orders_facts(2) by (rule sample_orders_facts(3))
  have "order_branch ?wo ''t.html'' [Numbers [1]] Map.empty =
        generate_pdf ?wo ''t.html''
          (OrderCtx ([VInt 3] ! 0) (orders_for [order_X, order_Y] ([VInt 3] ! 0)) 15500)
          (''order_invoice_'' @ py_str ?wo ([VInt 3] ! 0) @ ''.pdf'') Map.empty"
    by (rule output_file_name_by_branch [THEN conjunct2, THEN conjunct2, THEN conjunct1, THEN mp,
          OF conjI [OF one_order_file conjI [OF ld conjI [OF sample_orders_facts(1)
            conjI [OF first_of_one t]]]]])
  then have d: "order_branch ?wo ''t.html'' [Numbers [1]] Map.empty
                  = (Done, [''order_invoice_3.pdf'' \<mapsto> ''%PDF''])"
    by (simp add: str_of_int_digit one_file_dir_def generate_plain)
  show ?thesis
    by (intro conjI invoice_4_ids first_of_one a five_products_list select_two b
        select_one_and_three c one_order_file sample_orders_facts(1) d)
qed

text \<open>
  Claim C8 as stated fails in the order branch: for the entity token \<open>order\<close> and the
  selected invoice number 3 the file written is \<^verbatim>\<open>order_invoice_3.pdf\<close>, and there is
  no \<^verbatim>\<open>order_3.pdf\<close>.
\<close>

theorem order_file_name_has_invoice_infix:
  "entity_type_of ''order_1.json'' = ''order''
   \<and> fst (process_document (one_file_dir ''order_1.json'' [order_X, order_Y]) three_ones Map.empty)
       = Done
   \<and> snd (process_document (one_file_dir ''order_1.json'' [order_X, order_Y]) three_ones Map.empty)
         ''order_invoice_3.pdf'' = Some ''%PDF''
   \<and> snd (process_document (one_file_dir ''order_1.json'' [order_X, order_Y]) three_ones Map.empty)
         ''order_3.pdf'' = None"
proof -
  let ?wo = "one_file_dir ''order_1.json'' [order_X, order_Y]"
  have ld: "load_data ?wo ''order_1.json'' = Inr [order_X, order_Y]"
    by (rule load_json [OF json_suffix read_one_file_dir])
  have sel: "select_and_load ?wo three_ones
               = Inr (''order_1.json'', ''order_template.html'', [order_X, order_Y], [Numbers [1]])"
    unfolding three_ones_def by (rule one_file_dir_select) (rule ld)
  have t: "total_sum (orders_for [order_X, order_Y] ([VInt 3] ! 0)) = Inr 15500"
    unfolding nth_Cons_0 sample_orders_facts(2) by (rule sample_orders_facts(3))
  have "process_document ?wo three_ones Map.empty
          = (Done, [''order_invoice_3.pdf'' \<mapsto> ''%PDF''])"
    unfolding process_document_dispatch [OF sel] dispatch_order [OF order_json_facts]
      order_branch_selected [OF one_order_file ld sample_orders_facts(1) first_of_one t]
    by (simp add: str_of_int_digit one_file_dir_def generate_plain)
  then show ?thesis
    by (simp add: order_json_facts)
qed

lemma sort_first:
  fixes xs :: "string list"
  assumes "sort xs = y # ys"
  shows "y \<in> set xs \<and> (\<forall>x \<in> set xs. y \<le> x)"
proof -
  have "set (sort xs) = set xs" by simp
  with assms have s: "set xs = insert y (set ys)" by simp
  have "sorted (sort xs)" by simp
  with assms have "\<forall>x \<in> set ys. y \<le> x" by simp
  with s show ?thesis by auto
qed

lemma list_files_first:
  assumes "list_files directory pre suf = f # fs"
  shows "f \<in> set directory \<and> glob_match pre suf f
         \<and> (\<forall>n \<in> set directory. glob_match pre suf n \<longrightarrow> f \<le> n)"
  using sort_first [OF assms [unfolded list_files_def]] by auto

lemma list_files_empty:
  "(list_files directory pre suf = []) = (\<forall>n \<in> set directory. \<not> glob_match pre suf n)"
proof -
  have "(list_files directory pre suf = []) = (set (list_files directory pre suf) = {})"
    by simp
  also have "\<dots> = (\<forall>n \<in> set directory. \<not> glob_match pre suf n)"
    unfolding list_files_def by auto
  finally show ?thesis .
qed

lemma first_order_file:
  assumes "order_files_of w = f # fs"
  shows "f \<in> set (data_dir w)
      \<and> (if \<exists>n \<in> set (data_dir w). glob_match ''order_'' ''.csv'' n
         then glob_match ''order_'' ''.csv'' f
              \<and> (\<forall>n \<in> set (data_dir w). glob_match ''order_'' ''.csv'' n \<longrightarrow> f \<le> n)
         else glob_match ''order_'' ''.json'' f
              \<and> (\<forall>n \<in> set (data_dir w). glob_match ''order_'' ''.json'' n \<longrightarrow> f \<le> n))"
proof (cases "list_files (data_dir w) ''order_'' ''.csv''")
  case Nil
  then have none: "\<not> (\<exists>n \<in> set (data_dir w). glob_match ''order_'' ''.csv'' n)"
    unfolding list_files_empty by blast
  from assms Nil have "list_files (data_dir w) ''order_'' ''.json'' = f # fs"
    unfolding order_files_of_def by simp
  then have q: "f \<in> set (data_dir w) \<and> glob_match ''order_'' ''.json'' f
         \<and> (\<forall>n \<in> set (data_dir w). glob_match ''order_'' ''.json'' n \<longrightarrow> f \<le> n)"
    by (rule list_files_first)
  show ?thesis
    unfolding if_not_P [OF none] by (rule q)
next
  case (Cons c cs)
  with assms have "c = f"
    unfolding order_files_of_def by simp
  with Cons have l: "list_files (data_dir w) ''order_'' ''.csv'' = f # cs" by simp
  note p = list_files_first [OF l]
  then have some: "\<exists>n \<in> set (data_dir w). glob_match ''order_'' ''.csv'' n"
    by blast
  show ?thesis
    unfolding if_P [OF some] by (rule p)
qed

text \<open>
  Claim C9. The order source is the first element of the CSV order files sorted by
  name followed by the JSON order files sorted by name: it is the least CSV match if
  there is one, else the least JSON match. In the invoice branch the orders of the
  context are the matching lines of that file. In the order branch the run depends on
  neither the selected file nor its records, only on the entity token: the menu, the
  lines and the total come from that first order file, and without any order file the
  run fails.
\<close>

theorem orders_are_read_from_first_order_file:
  "(order_files_of w = f # fs \<longrightarrow>
      f \<in> set (data_dir w)
      \<and> (if \<exists>n \<in> set (data_dir w). glob_match ''order_'' ''.csv'' n
         then glob_match ''order_'' ''.csv'' f
              \<and> (\<forall>n \<in> set (data_dir w). glob_match ''order_'' ''.csv'' n \<longrightarrow> f \<le> n)
         else glob_match ''order_'' ''.json'' f
              \<and> (\<forall>n \<in> set (data_dir w). glob_match ''order_'' ''.json'' n \<longrightarrow> f \<le> n)))
   \<and> (select_and_load w answers = Inr (selected_data_file, tmpl, all_data, rest)
      \<and> entity_type_of selected_data_file = ''invoice''
      \<and> column_of ''id'' all_data = Inr invoice_ids
      \<and> display_menu (length invoice_ids) rest = (Inr i, rest')
      \<and> order_files_of w = f # fs \<and> load_data w f = Inr all_orders \<longrightarrow>
      process_document w answers out =
        generate_pdf w tmpl
          (InvoiceCtx (all_data ! i) (orders_for all_orders (invoice_ids ! i)))
          (''invoice_'' @ py_str w (invoice_ids ! i) @ ''.pdf'') out)
   \<and> (select_and_load w answers = Inr (selected_data_file, tmpl, all_data, rest)
      \<and> entity_type_of selected_data_file = ''order'' \<longrightarrow>
      process_document w answers out = order_branch w tmpl rest out
      \<and> (\<forall>other_file other_data. entity_type_of other_file = ''order'' \<longrightarrow>
            dispatch w other_file tmpl other_data rest out
              = dispatch w selected_data_file tmpl all_data rest out)
      \<and> (order_files_of w = [] \<longrightarrow> process_document w answers out = (Failed NoOrderFiles, out))
      \<and> (order_files_of w = f # fs \<and> load_data w f = Inr all_orders
          \<and> invoice_numbers_of all_orders = Inr invoice_numbers
          \<and> display_menu (length invoice_numbers) rest = (Inr i, rest')
          \<and> total_sum (orders_for all_orders (invoice_numbers ! i)) = Inr amount \<longrightarrow>
          process_document w answers out =
            generate_pdf w tmpl
              (OrderCtx (invoice_numbers ! i) (orders_for all_orders (invoice_numbers ! i)) amount)
              (''order_invoice_'' @ py_str w (invoice_numbers ! i) @ ''.pdf'') out))"
proof (intro conjI impI allI)
  assume "order_files_of w = f # fs"
  from first_order_file [OF this]
  show "f \<in> set (data_dir w)"
    and "if \<exists>n \<in> set (data_dir w). glob_match ''order_'' ''.csv'' n
         then glob_match ''order_'' ''.csv'' f
              \<and> (\<forall>n \<in> set (data_dir w). glob_match ''order_'' ''.csv'' n \<longrightarrow> f \<le> n)
         else glob_match ''order_'' ''.json'' f
              \<and> (\<forall>n \<in> set (data_dir w). glob_match ''order_'' ''.json'' n \<longrightarrow> f \<le> n)"
    by (rule conjunct1, rule conjunct2)
next
  assume h: "select_and_load w answers = Inr (selected_data_file, tmpl, all_data, rest)
      \<and> entity_type_of selected_data_file = ''invoice''
      \<and> column_of ''id'' all_data = Inr invoice_ids
      \<and> display_menu (length invoice_ids) rest = (Inr i, rest')
      \<and> order_files_of w = f # fs \<and> load_data w f = Inr all_orders"
  then have sel: "select_and_load w answers = Inr (selected_data_file, tmpl, all_data, rest)"
    and ent: "entity_type_of selected_data_file = ''invoice''"
    and ids: "column_of ''id'' all_data = Inr invoice_ids"
    and menu: "display_menu (length invoice_ids) rest = (Inr i, rest')"
    and files: "order_files_of w = f # fs" and ld: "load_data w f = Inr all_orders"
    by simp_all
  from display_menu_range [OF menu] column_of_values [OF ids]
  have "(all_data ! i) ''id'' = Some (invoice_ids ! i)"
    by simp
  then have "related_orders w (all_data ! i) = orders_for all_orders (invoice_ids ! i)"
    by (rule related_orders_loaded [OF files ld])
  then show "process_document w answers out =
        generate_pdf w tmpl
          (InvoiceCtx (all_data ! i) (orders_for all_orders (invoice_ids ! i)))
          (''invoice_'' @ py_str w (invoice_ids ! i) @ ''.pdf'') out"
    by (simp add: process_document_dispatch [OF sel] dispatch_invoice [OF ent]
        invoice_branch_selected [OF ids menu])
next
  assume h: "select_and_load w answers = Inr (selected_data_file, tmpl, all_data, rest)
      \<and> entity_type_of selected_data_file = ''order''"
  then have sel: "select_and_load w answers = Inr (selected_data_file, tmpl, all_data, rest)"
    and ent: "entity_type_of selected_data_file = ''order''"
    by simp_all
  show pd: "process_document w answers out = order_branch w tmpl rest out"
    by (simp add: process_document_dispatch [OF sel] dispatch_order [OF ent])
  show "dispatch w other_file tmpl other_data rest out
          = dispatch w selected_data_file tmpl all_data rest out"
    if "entity_type_of other_file = ''order''" for other_file other_data
    by (simp add: dispatch_order [OF ent] dispatch_order [OF that])
  show "process_document w answers out = (Failed NoOrderFiles, out)"
    if "order_files_of w = []"
    by (simp add: pd order_branch_def that)
  show "process_document w answers out =
            generate_pdf w tmpl
              (OrderCtx (invoice_numbers ! i) (orders_for all_orders (invoice_numbers ! i)) amount)
              (''order_invoice_'' @ py_str w (invoice_numbers ! i) @ ''.pdf'') out"
    if "order_files_of w = f # fs \<and> load_data w f = Inr all_orders
          \<and> invoice_numbers_of all_orders = Inr invoice_numbers
          \<and> display_menu (length invoice_numbers) rest = (Inr i, rest')
          \<and> total_sum (orders_for all_orders (invoice_numbers ! i)) = Inr amount"
    unfolding pd using that
    by (intro order_branch_selected) (elim conjE, assumption)+
qed

text \<open>
  The user selects \<^verbatim>\<open>order_1.json\<close>, which holds a line of invoice 7; the lines of
  invoice 3 are read from \<^verbatim>\<open>order_9.csv\<close>, the only CSV order file.
\<close>

lemma two_formats_dir_facts:
  "list_files (data_dir two_formats_dir) [] [] = [''order_1.json'', ''order_2.json'', ''order_9.csv'']"
  "list_files (templates_dir two_formats_dir) [] ''.html'' = [''order_template.html'']"
  "order_files_of two_formats_dir = [''order_9.csv'', ''order_1.json'', ''order_2.json'']"
  "read_file two_formats_dir ''order_1.json'' = Inr [order_Z]"
  "read_file two_formats_dir ''order_9.csv'' = Inr [order_X, order_Y]"
  by (simp_all add: order_files_of_def list_files_def glob_match_def two_formats_dir_def
      plain_world_def)

lemma two_formats_dir_loads:
  "load_data two_formats_dir ''order_1.json'' = Inr [order_Z]"
  "load_data two_formats_dir ''order_9.csv'' = Inr [order_X, order_Y]"
proof -
  show "load_data two_formats_dir ''order_1.json'' = Inr [order_Z]"
    by (rule load_json [OF json_suffix two_formats_dir_facts(4)])
  have sfx: "lower (suffix_of ''order_9.csv'') = ''.csv''"
    by (simp add: suffix_of_def rfind_dot_def lower_def lower_char_def)
  have "coerce_cell w ''quantity'' order_X = Inr order_X"
    "coerce_cell w ''price'' order_X = Inr order_X"
    "coerce_cell w ''invoice_number'' order_X = Inr order_X" for w
    by (rule coerce_cell_int, simp add: order_X_def)+
  moreover have "coerce_cell w ''quantity'' order_Y = Inr order_Y"
    "coerce_cell w ''price'' order_Y = Inr order_Y"
    "coerce_cell w ''invoice_number'' order_Y = Inr order_Y" for w
    by (rule coerce_cell_int, simp add: order_Y_def)+
  ultimately show "load_data two_formats_dir ''order_9.csv'' = Inr [order_X, order_Y]"
    unfolding load_data_def sfx two_formats_dir_facts(5) by simp
qed

theorem orders_are_read_from_first_order_file_witness:
  "select_and_load two_formats_dir three_ones
     = Inr (''order_1.json'', ''order_template.html'', [order_Z], [Numbers [1]])
   \<and> entity_type_of ''order_1.json'' = ''order''
   \<and> order_files_of two_formats_dir = [''order_9.csv'', ''order_1.json'', ''order_2.json'']
   \<and> glob_match ''order_'' ''.csv'' ''order_9.csv''
   \<and> load_data two_formats_dir ''order_9.csv'' = Inr [order_X, order_Y]
   \<and> invoice_numbers_of [order_X, order_Y] = Inr [VInt 3]
   \<and> display_menu (length [VInt 3]) [Numbers [1]] = (Inr 0, [])
   \<and> process_document two_formats_dir three_ones Map.empty
       = (Done, [''order_invoice_3.pdf'' \<mapsto> ''%PDF''])"
proof -
  have sel: "select_and_load two_formats_dir three_ones
     = Inr (''order_1.json'', ''order_template.html'', [order_Z], [Numbers [1]])"
    by (simp add: select_and_load_def two_formats_dir_facts(1,2) three_ones_def
        two_formats_dir_loads(1))
  have t: "total_sum (orders_for [order_X, order_Y] ([VInt 3] ! 0)) = Inr 15500"
    unfolding nth_Cons_0 sample_orders_facts(2) by (rule sample_orders_facts(3))
  note main = orders_are_read_from_first_order_file
    [where w = two_formats_dir and f = "''order_9.csv''" and fs = "[''order_1.json'', ''order_2.json'']"]
  have csv: "\<exists>n \<in> set (data_dir two_formats_dir). glob_match ''order_'' ''.csv'' n"
    by (simp add: two_formats_dir_def plain_world_def glob_match_def)
  from main [THEN conjunct1, THEN mp, OF two_formats_dir_facts(3), THEN conjunct2]
  have g: "glob_match ''order_'' ''.csv'' ''order_9.csv''"
    unfolding if_P [OF csv] by (rule conjunct1)
  have "process_document two_formats_dir three_ones Map.empty =
            generate_pdf two_formats_dir ''order_template.html''
              (OrderCtx ([VInt 3] ! 0) (orders_for [order_X, order_Y] ([VInt 3] ! 0)) 15500)
              (''order_invoice_'' @ py_str two_formats_dir ([VInt 3] ! 0) @ ''.pdf'') Map.empty"
    by (rule main [THEN conjunct2, THEN conjunct2, THEN mp, OF conjI [OF sel order_json_facts],
          THEN conjunct2, THEN conjunct2, THEN conjunct2, THEN mp,
          OF conjI [OF two_formats_dir_facts(3) conjI [OF two_formats_dir_loads(2)
            conjI [OF sample_orders_facts(1) conjI [OF first_of_one t]]]]])
  then have p: "process_document two_formats_dir three_ones Map.empty
       = (Done, [''order_invoice_3.pdf'' \<mapsto> ''%PDF''])"
    by (simp add: str_of_int_digit two_formats_dir_def generate_plain)
  show ?thesis
    by (intro conjI sel order_json_facts two_formats_dir_facts(3) g two_formats_dir_loads(2)
        sample_orders_facts(1) first_of_one p)
qed

end
